theory Spec2Isabelle
  imports Main "HOL-Library.Sublist" "HOL-Library.AList"
begin

section \<open>Values of type \<^verbatim>\<open>unknown\<close>\<close>

text \<open>
  \<^verbatim>\<open>src/index.ts\<close> inspects values of type \<^verbatim>\<open>unknown\<close> with \<^verbatim>\<open>typeof\<close>, \<^verbatim>\<open>in\<close>,
  \<^verbatim>\<open>Array.isArray\<close> and \<^verbatim>\<open>Reflect.get\<close> only. A JavaScript value is one of the language's
  eight \<^verbatim>\<open>typeof\<close> classes; numbers are kept as integers (no claim depends on their
  arithmetic), a function is an opaque identity, and an object is the list of its
  properties, own ones first, then the ones reached through the prototype chain. The
  properties every object inherits from \<^verbatim>\<open>Object.prototype\<close> and \<^verbatim>\<open>Array.prototype\<close> are
  not listed: none of them is a key the source asks for.
\<close>

datatype jsval =
    JUndefined
  | JNull
  | JBool bool
  | JNumber int
  | JBigInt int
  | JString string
  | JSymbol nat
  | JFunction nat
  | JArray "jsval list"
  | JObject "(string \<times> jsval) list"

fun typeof :: "jsval \<Rightarrow> string" where
  "typeof JUndefined = ''undefined''"
| "typeof JNull = ''object''"
| "typeof (JBool b) = ''boolean''"
| "typeof (JNumber n) = ''number''"
| "typeof (JBigInt n) = ''bigint''"
| "typeof (JString s) = ''string''"
| "typeof (JSymbol n) = ''symbol''"
| "typeof (JFunction f) = ''function''"
| "typeof (JArray xs) = ''object''"
| "typeof (JObject ps) = ''object''"

text \<open>Decimal digits of a natural number, as template literals print an array index.\<close>

definition digit_char :: "nat \<Rightarrow> char" where
  "digit_char n = ''0123456789'' ! n"

fun show_nat :: "nat \<Rightarrow> string" where
  "show_nat n = (if n < 10 then [digit_char n] else show_nat (n div 10) @ [digit_char (n mod 10)])"

declare show_nat.simps [simp del]

text \<open>
  The property names of a non-null object: those of its property list; for an array its
  indices and \<^verbatim>\<open>length\<close>. \<^verbatim>\<open>key in value\<close> and \<^verbatim>\<open>Reflect.get(value, key)\<close> are only
  reached in the source after the \<^verbatim>\<open>typeof value !== "object" || value === null\<close> guard,
  so the other constructors have no properties here.
\<close>

fun property_names :: "jsval \<Rightarrow> string list" where
  "property_names (JObject ps) = map fst ps"
| "property_names (JArray xs) = map show_nat [0..<length xs] @ [''length'']"
| "property_names v = []"

definition js_in :: "string \<Rightarrow> jsval \<Rightarrow> bool" where
  "js_in key v = (key \<in> set (property_names v))"

fun array_get :: "jsval list \<Rightarrow> string \<Rightarrow> jsval" where
  "array_get xs key =
     (if key = ''length'' then JNumber (int (length xs))
      else case find (\<lambda>i. show_nat i = key) [0..<length xs] of
             Some i \<Rightarrow> xs ! i
           | None \<Rightarrow> JUndefined)"

fun Reflect_get :: "jsval \<Rightarrow> string \<Rightarrow> jsval" where
  "Reflect_get (JObject ps) key = (case map_of ps key of Some v \<Rightarrow> v | None \<Rightarrow> JUndefined)"
| "Reflect_get (JArray xs) key = array_get xs key"
| "Reflect_get v key = JUndefined"

section \<open>Errors\<close>

text \<open>
  \<^verbatim>\<open>Error msg\<close> is \<^verbatim>\<open>new Error(msg)\<close>, also the shape of an error a collaborator throws.
  \<^verbatim>\<open>TypeValidationError value cause\<close> is the typed error of the \<^verbatim>\<open>ai\<close> package.
\<close>

datatype error =
    Error string
  | TypeValidationError jsval error

text \<open>
  Modelled from the spec: \<^verbatim>\<open>TypeValidationError.wrap\<close> belongs to the external \<^verbatim>\<open>ai\<close>
  package and is not under \<^verbatim>\<open>src/\<close>; the spec describes its result as a typed validation
  error that wraps the original cause and the rejected value.
\<close>

definition TypeValidationError_wrap :: "jsval \<Rightarrow> error \<Rightarrow> error" where
  "TypeValidationError_wrap val cause = TypeValidationError val cause"

section \<open>Schema resolution\<close>

definition isFlexibleSchema :: "jsval \<Rightarrow> bool" where
  "isFlexibleSchema v =
     (if typeof v = ''function'' then True
      else if typeof v \<noteq> ''object'' \<or> v = JNull then False
      else if js_in ''~standard'' v then True
      else js_in ''jsonSchema'' v \<and> js_in ''validate'' v)"

definition ensureFlexibleSchema :: "jsval \<Rightarrow> error + jsval" where
  "ensureFlexibleSchema v =
     (if isFlexibleSchema v then Inr v
      else Inl (Error ''Tool input schema is not a supported schema.''))"

section \<open>Formatting the compiled validator's violations\<close>

definition readOptionalString :: "jsval \<Rightarrow> string \<Rightarrow> string option" where
  "readOptionalString v key =
     (if typeof v \<noteq> ''object'' \<or> v = JNull then None
      else case Reflect_get v key of JString s \<Rightarrow> Some s | _ \<Rightarrow> None)"

text \<open>\<^verbatim>\<open>Array.prototype.join\<close> on an array of strings.\<close>

fun join :: "string \<Rightarrow> string list \<Rightarrow> string" where
  "join sep [] = []"
| "join sep [x] = x"
| "join sep (x # y # ys) = x @ sep @ join sep (y # ys)"

text \<open>The callback of \<^verbatim>\<open>errors.map\<close>: one violation and its index to one string.\<close>

definition formatAjvError :: "jsval \<Rightarrow> nat \<Rightarrow> string" where
  "formatAjvError err index =
     (let message = readOptionalString err ''message'';
          instancePath =
            (case readOptionalString err ''instancePath'' of
               Some p \<Rightarrow> Some p
             | None \<Rightarrow> readOptionalString err ''dataPath'');
          label =
            (case instancePath of
               Some p \<Rightarrow> if p \<noteq> [] \<and> length p > 0 then p else ''error '' @ show_nat (index + 1)
             | None \<Rightarrow> ''error '' @ show_nat (index + 1))
      in case message of
           Some m \<Rightarrow> if m \<noteq> [] then label @ '': '' @ m else label @ '': invalid input''
         | None \<Rightarrow> label @ '': invalid input'')"

definition formatAjvErrors :: "jsval \<Rightarrow> string" where
  "formatAjvErrors errors =
     (case errors of
        JArray es \<Rightarrow>
          if length es = 0 then ''Input did not match the expected schema.''
          else join ''; '' (map (\<lambda>(index, err). formatAjvError err index) (enumerate 0 es))
      | _ \<Rightarrow> ''Input did not match the expected schema.'')"

section \<open>Schemas, compiled validators and the process state\<close>

datatype ValidationResult =
    Success jsval
  | Failure error

text \<open>
  A \<^verbatim>\<open>Schema\<close> of the \<^verbatim>\<open>ai\<close> package: \<^verbatim>\<open>jsonSchema\<close> is what awaiting
  \<^verbatim>\<open>Promise.resolve(schema.jsonSchema)\<close> gives (the getter may throw, the promise may reject),
  \<^verbatim>\<open>validate\<close> is the optional built-in validation function (it may throw as well). The
  identity of the object, which keys the \<^verbatim>\<open>WeakMap\<close>, travels beside the fields.
\<close>

record Schema =
  jsonSchema :: "error + jsval"
  validate :: "(jsval \<Rightarrow> error + ValidationResult) option"

type_synonym schema_handle = "nat \<times> Schema"

text \<open>
  One call of an \<^verbatim>\<open>AjvValidator\<close>: what the call returns (a boolean, or something else
  such as a promise) and the value of its \<^verbatim>\<open>errors\<close> property after the call.
\<close>

record ajv_call =
  returned :: jsval
  errors :: jsval

type_synonym AjvValidator = "jsval \<Rightarrow> ajv_call"

text \<open>
  The two collaborators the module calls: \<^verbatim>\<open>asSchema\<close> of the \<^verbatim>\<open>ai\<close> package and
  \<^verbatim>\<open>ajv.compile\<close>. Both are parameters of the model; either may throw.
\<close>

type_synonym as_schema = "jsval \<Rightarrow> error + schema_handle"
type_synonym ajv_compile = "jsval \<Rightarrow> error + AjvValidator"

record ToolExecutionOptions =
  toolCallId :: string
  messages :: "jsval list"

type_synonym execute_fn = "jsval \<Rightarrow> ToolExecutionOptions \<Rightarrow> error + jsval"

text \<open>
  The state: the module-level \<^verbatim>\<open>schemaValidatorCache\<close>, and two logs that record what the
  module asks of the outside: every call of \<^verbatim>\<open>ajv.compile\<close> (by the identity of the
  schema it is made for) and every call of a tool's \<^verbatim>\<open>execute\<close> (the function, its
  input, its options).
\<close>

record world =
  schemaValidatorCache :: "nat \<Rightarrow> AjvValidator option"
  compile_log :: "nat list"
  execute_log :: "(execute_fn \<times> jsval \<times> ToolExecutionOptions) list"

definition initial_world :: world where
  "initial_world = \<lparr>schemaValidatorCache = (\<lambda>i. None), compile_log = [], execute_log = []\<rparr>"

section \<open>Validator materialization\<close>

text \<open>
  \<^verbatim>\<open>getAjvValidator\<close> has one \<^verbatim>\<open>await\<close>, between the cache lookup and the compilation.
  \<^verbatim>\<open>getAjvValidator_resume\<close> is the part after it; \<^verbatim>\<open>getAjvValidator\<close> is the whole
  function when nothing else runs at the \<^verbatim>\<open>await\<close>.
\<close>

definition getAjvValidator_resume ::
  "ajv_compile \<Rightarrow> schema_handle \<Rightarrow> world \<Rightarrow> (error + AjvValidator) \<times> world" where
  "getAjvValidator_resume compile schema w =
     (case jsonSchema (snd schema) of
        Inl e \<Rightarrow> (Inl e, w)
      | Inr js \<Rightarrow>
          (let w1 = w\<lparr>compile_log := compile_log w @ [fst schema]\<rparr>
           in case compile js of
                Inl e \<Rightarrow> (Inl e, w1)
              | Inr validator \<Rightarrow>
                  (Inr validator,
                   w1\<lparr>schemaValidatorCache := (schemaValidatorCache w1)(fst schema \<mapsto> validator)\<rparr>)))"

definition getAjvValidator ::
  "ajv_compile \<Rightarrow> schema_handle \<Rightarrow> world \<Rightarrow> (error + AjvValidator) \<times> world" where
  "getAjvValidator compile schema w =
     (case schemaValidatorCache w (fst schema) of
        Some cached \<Rightarrow> (Inr cached, w)
      | None \<Rightarrow> getAjvValidator_resume compile schema w)"

definition ensureSyncValidation :: "AjvValidator \<Rightarrow> jsval \<Rightarrow> error + bool" where
  "ensureSyncValidation validator val =
     (let result = returned (validator val)
      in if typeof result \<noteq> ''boolean''
         then Inl (Error ''Async JSON schema validation is not supported.'')
         else Inr (result = JBool True))"

text \<open>The closure \<^verbatim>\<open>validate\<close> that \<^verbatim>\<open>buildValidatedSchema\<close> builds around a compiled validator.\<close>

definition compiled_validate :: "AjvValidator \<Rightarrow> jsval \<Rightarrow> error + ValidationResult" where
  "compiled_validate validator val =
     (case ensureSyncValidation validator val of
        Inl e \<Rightarrow> Inl e
      | Inr ok \<Rightarrow>
          if ok then Inr (Success val)
          else Inr (Failure (Error (formatAjvErrors (errors (validator val))))))"

definition buildValidatedSchema ::
  "as_schema \<Rightarrow> ajv_compile \<Rightarrow> jsval \<Rightarrow> world \<Rightarrow> (error + Schema) \<times> world" where
  "buildValidatedSchema asSchema compile schema w =
     (case asSchema schema of
        Inl e \<Rightarrow> (Inl e, w)
      | Inr resolved \<Rightarrow>
          (case validate (snd resolved) of
             Some own \<Rightarrow> (Inr (snd resolved), w)
           | None \<Rightarrow>
               (case getAjvValidator compile resolved w of
                  (Inl e, w') \<Rightarrow> (Inl e, w')
                | (Inr validator, w') \<Rightarrow>
                    (Inr ((snd resolved)\<lparr>validate := Some (compiled_validate validator)\<rparr>), w'))))"

section \<open>Input validation and tool wrappers\<close>

definition validateInput :: "jsval \<Rightarrow> Schema \<Rightarrow> error + jsval" where
  "validateInput val schema =
     (case validate schema of
        None \<Rightarrow> Inl (Error ''Input schema does not provide validation.'')
      | Some v \<Rightarrow>
          (case v val of
             Inl e \<Rightarrow> Inl e
           | Inr (Success validated) \<Rightarrow> Inr validated
           | Inr (Failure cause) \<Rightarrow> Inl (TypeValidationError_wrap val cause)))"

definition createExecutionOptions :: "string \<Rightarrow> ToolExecutionOptions" where
  "createExecutionOptions toolName = \<lparr>toolCallId = ''mcp:'' @ toolName, messages = []\<rparr>"

record McpToolInfo =
  name :: string
  description :: "string option"
  title :: "string option"
  inputSchema :: jsval

record McpToolDefinition =
  description :: "string option"
  title :: "string option"
  inputSchema :: jsval
  execute :: "execute_fn option"

type_synonym McpToolFunction = "jsval \<Rightarrow> world \<Rightarrow> (error + jsval) \<times> world"
type_synonym McpToolFunctions = "(string \<times> McpToolFunction) list"

definition missing_execute_message :: "string \<Rightarrow> string" where
  "missing_execute_message toolName =
     ''MCP tool '' @ [CHR 0x22] @ toolName @ [CHR 0x22] @ '' does not have an execute function.''"

text \<open>The function \<^verbatim>\<open>createToolWrapper\<close> returns, with the variables it captures as arguments.\<close>

definition toolWrapper :: "string \<Rightarrow> McpToolDefinition \<Rightarrow> Schema \<Rightarrow> McpToolFunction" where
  "toolWrapper toolName tool schema args w =
     (case validateInput args schema of
        Inl e \<Rightarrow> (Inl e, w)
      | Inr validated \<Rightarrow>
          (case execute tool of
             None \<Rightarrow> (Inl (Error (missing_execute_message toolName)), w)
           | Some f \<Rightarrow>
               (f validated (createExecutionOptions toolName),
                w\<lparr>execute_log :=
                    execute_log w @ [(f, validated, createExecutionOptions toolName)]\<rparr>)))"

definition createToolWrapper ::
  "as_schema \<Rightarrow> ajv_compile \<Rightarrow> string \<Rightarrow> McpToolDefinition \<Rightarrow> world
     \<Rightarrow> (error + McpToolFunction) \<times> world" where
  "createToolWrapper asSchema compile toolName tool w =
     (case ensureFlexibleSchema (McpToolDefinition.inputSchema tool) of
        Inl e \<Rightarrow> (Inl e, w)
      | Inr flexible \<Rightarrow>
          (case buildValidatedSchema asSchema compile flexible w of
             (Inl e, w') \<Rightarrow> (Inl e, w')
           | (Inr schema, w') \<Rightarrow> (Inr (toolWrapper toolName tool schema), w')))"

section \<open>Toolset enumeration\<close>

text \<open>
  A toolset is the list of its own enumerable properties in the order \<^verbatim>\<open>Object.keys\<close>
  gives them. The value of a property is a tool definition, or a falsy value such as
  \<^verbatim>\<open>undefined\<close>, which \<^verbatim>\<open>if (!tool)\<close> skips.
\<close>

datatype toolset_entry =
    Falsy
  | Tool McpToolDefinition

type_synonym McpToolSet = "(string \<times> toolset_entry) list"

definition Object_keys :: "(string \<times> 'a) list \<Rightarrow> string list" where
  "Object_keys obj = map fst obj"

definition toolset_get :: "McpToolSet \<Rightarrow> string \<Rightarrow> toolset_entry" where
  "toolset_get toolset toolName =
     (case map_of toolset toolName of None \<Rightarrow> Falsy | Some entry \<Rightarrow> entry)"

fun createMcpToolFunctions_loop ::
  "as_schema \<Rightarrow> ajv_compile \<Rightarrow> McpToolSet \<Rightarrow> string list \<Rightarrow> McpToolFunctions \<Rightarrow> world
     \<Rightarrow> (error + McpToolFunctions) \<times> world" where
  "createMcpToolFunctions_loop asSchema compile toolset [] toolFunctions w =
     (Inr toolFunctions, w)"
| "createMcpToolFunctions_loop asSchema compile toolset (toolName # rest) toolFunctions w =
     (case toolset_get toolset toolName of
        Falsy \<Rightarrow> createMcpToolFunctions_loop asSchema compile toolset rest toolFunctions w
      | Tool tool \<Rightarrow>
          (case createToolWrapper asSchema compile toolName tool w of
             (Inl e, w') \<Rightarrow> (Inl e, w')
           | (Inr wrapper, w') \<Rightarrow>
               createMcpToolFunctions_loop asSchema compile toolset rest
                 (AList.update toolName wrapper toolFunctions) w'))"

definition createMcpToolFunctions ::
  "as_schema \<Rightarrow> ajv_compile \<Rightarrow> McpToolSet \<Rightarrow> world \<Rightarrow> (error + McpToolFunctions) \<times> world" where
  "createMcpToolFunctions asSchema compile toolset w =
     createMcpToolFunctions_loop asSchema compile toolset (Object_keys toolset) [] w"

fun listMcpToolsFromToolSet_loop ::
  "as_schema \<Rightarrow> McpToolSet \<Rightarrow> string list \<Rightarrow> McpToolInfo list \<Rightarrow> error + McpToolInfo list" where
  "listMcpToolsFromToolSet_loop asSchema toolset [] tools = Inr tools"
| "listMcpToolsFromToolSet_loop asSchema toolset (toolName # rest) tools =
     (case toolset_get toolset toolName of
        Falsy \<Rightarrow> listMcpToolsFromToolSet_loop asSchema toolset rest tools
      | Tool tool \<Rightarrow>
          (case ensureFlexibleSchema (McpToolDefinition.inputSchema tool) of
             Inl e \<Rightarrow> Inl e
           | Inr flexible \<Rightarrow>
               (case asSchema flexible of
                  Inl e \<Rightarrow> Inl e
                | Inr schema \<Rightarrow>
                    (case jsonSchema (snd schema) of
                       Inl e \<Rightarrow> Inl e
                     | Inr json \<Rightarrow>
                         listMcpToolsFromToolSet_loop asSchema toolset rest
                           (tools @ [\<lparr>McpToolInfo.name = toolName,
                                      McpToolInfo.description = McpToolDefinition.description tool,
                                      McpToolInfo.title = McpToolDefinition.title tool,
                                      McpToolInfo.inputSchema = json\<rparr>])))))"

definition listMcpToolsFromToolSet :: "as_schema \<Rightarrow> McpToolSet \<Rightarrow> error + McpToolInfo list" where
  "listMcpToolsFromToolSet asSchema toolset =
     listMcpToolsFromToolSet_loop asSchema toolset (Object_keys toolset) []"

section \<open>Notions the properties are stated with\<close>

text \<open>The three shapes of schema value, by constructor.\<close>

definition callable_shape :: "jsval \<Rightarrow> bool" where
  "callable_shape v = (case v of JFunction f \<Rightarrow> True | _ \<Rightarrow> False)"

definition non_null_object :: "jsval \<Rightarrow> bool" where
  "non_null_object v = (case v of JObject ps \<Rightarrow> True | JArray xs \<Rightarrow> True | _ \<Rightarrow> False)"

text \<open>
  A structural violation as Ajv reports it, seen as the pair of its instance path and its
  message: an object whose \<^verbatim>\<open>instancePath\<close> is a string and whose \<^verbatim>\<open>message\<close> is a
  non-empty string.
\<close>

definition is_violation :: "jsval \<Rightarrow> string \<times> string \<Rightarrow> bool" where
  "is_violation err v =
     (non_null_object err
      \<and> Reflect_get err ''instancePath'' = JString (fst v)
      \<and> Reflect_get err ''message'' = JString (snd v)
      \<and> snd v \<noteq> [])"

text \<open>
  The aggregated message in the spec's words: per violation its location (the instance
  path, or the label \<^verbatim>\<open>error n\<close> with \<open>n\<close> its position counted from one when the path is
  empty), a colon and its message; the violations in order, joined by \<^verbatim>\<open>"; "\<close>.
\<close>

definition violation_text :: "nat \<Rightarrow> string \<times> string \<Rightarrow> string" where
  "violation_text index v =
     (if fst v = [] then ''error '' @ show_nat (index + 1) else fst v) @ '': '' @ snd v"

definition aggregated_message :: "(string \<times> string) list \<Rightarrow> string" where
  "aggregated_message vs =
     join ''; '' (map (\<lambda>(index, v). violation_text index v) (enumerate 0 vs))"

text \<open>
  The validation a tool's input schema performs once its wrapper is built: the schema's
  own \<^verbatim>\<open>validate\<close> operation when it exposes one, else the closure around the compiled
  validator that the cache holds for the schema's identity.
\<close>

definition tool_validation ::
  "as_schema \<Rightarrow> world \<Rightarrow> McpToolDefinition \<Rightarrow> (jsval \<Rightarrow> error + ValidationResult) option" where
  "tool_validation asSchema w tool =
     (case asSchema (McpToolDefinition.inputSchema tool) of
        Inl e \<Rightarrow> None
      | Inr resolved \<Rightarrow>
          (case validate (snd resolved) of
             Some own \<Rightarrow> Some own
           | None \<Rightarrow> map_option compiled_validate (schemaValidatorCache w (fst resolved))))"

text \<open>
  What the listing loop resolves for one tool: the JSON representation of its input
  schema, or the error that \<^verbatim>\<open>ensureFlexibleSchema\<close>, \<^verbatim>\<open>asSchema\<close> or the representation
  itself raises.
\<close>

definition resolved_json :: "as_schema \<Rightarrow> McpToolDefinition \<Rightarrow> error + jsval" where
  "resolved_json asSchema tool =
     (case ensureFlexibleSchema (McpToolDefinition.inputSchema tool) of
        Inl e \<Rightarrow> Inl e
      | Inr flexible \<Rightarrow>
          (case asSchema flexible of
             Inl e \<Rightarrow> Inl e
           | Inr schema \<Rightarrow> jsonSchema (snd schema)))"

text \<open>The metadata record the listing pushes for one non-falsy entry that resolves.\<close>

definition tool_info :: "as_schema \<Rightarrow> string \<times> McpToolDefinition \<Rightarrow> McpToolInfo" where
  "tool_info asSchema entry =
     \<lparr>McpToolInfo.name = fst entry,
      McpToolInfo.description = McpToolDefinition.description (snd entry),
      McpToolInfo.title = McpToolDefinition.title (snd entry),
      McpToolInfo.inputSchema =
        (case resolved_json asSchema (snd entry) of Inr json \<Rightarrow> json | Inl e \<Rightarrow> JUndefined)\<rparr>"

text \<open>The non-falsy entries of a toolset, in key enumeration order.\<close>

definition defined_entries :: "McpToolSet \<Rightarrow> (string \<times> McpToolDefinition) list" where
  "defined_entries toolset =
     concat (map (\<lambda>toolName. case toolset_get toolset toolName of
                                 Falsy \<Rightarrow> []
                               | Tool tool \<Rightarrow> [(toolName, tool)])
                 (Object_keys toolset))"

definition without_falsy :: "McpToolSet \<Rightarrow> McpToolSet" where
  "without_falsy toolset = filter (\<lambda>p. snd p \<noteq> Falsy) toolset"

text \<open>
  Materializations one after another: each \<^verbatim>\<open>buildValidatedSchema\<close> call is awaited
  before the next one starts, whether it returned or threw.
\<close>

fun materialize_all :: "as_schema \<Rightarrow> ajv_compile \<Rightarrow> jsval list \<Rightarrow> world \<Rightarrow> world" where
  "materialize_all asSchema compile [] w = w"
| "materialize_all asSchema compile (schema # rest) w =
     materialize_all asSchema compile rest (snd (buildValidatedSchema asSchema compile schema w))"

text \<open>Whether the compiler accepts every JSON representation asked for a given identity.\<close>

definition compiles_for :: "as_schema \<Rightarrow> ajv_compile \<Rightarrow> nat \<Rightarrow> jsval \<Rightarrow> bool" where
  "compiles_for asSchema compile i schema =
     (case asSchema schema of
        Inl e \<Rightarrow> True
      | Inr resolved \<Rightarrow>
          (if fst resolved = i
           then (case jsonSchema (snd resolved) of
                   Inl e \<Rightarrow> True
                 | Inr json \<Rightarrow> (case compile json of Inl e \<Rightarrow> False | Inr validator \<Rightarrow> True))
           else True))"

text \<open>
  The invariant behind "compiled at most once": the compiler was invoked at most once
  for the identity, and if it was, the cache holds a validator for the identity.
\<close>

definition compiled_once :: "nat \<Rightarrow> world \<Rightarrow> bool" where
  "compiled_once i w =
     (count_list (compile_log w) i \<le> 1
      \<and> (i \<in> set (compile_log w) \<longrightarrow> schemaValidatorCache w i \<noteq> None))"

section \<open>The tools of the test suite\<close>

text \<open>
  The value \<^verbatim>\<open>jsonSchema(json)\<close> of the \<^verbatim>\<open>ai\<close> package returns: an object with the
  properties \<^verbatim>\<open>jsonSchema\<close> and \<^verbatim>\<open>validate\<close>, the latter undefined.
\<close>

definition jsonSchema_value :: "jsval \<Rightarrow> jsval" where
  "jsonSchema_value json = JObject [(''jsonSchema'', json), (''validate'', JUndefined)]"

text \<open>
  \<^verbatim>\<open>asSchema\<close> on such values returns the object itself; the table gives each object its
  identity.
\<close>

definition asSchema_of :: "(jsval \<times> nat) list \<Rightarrow> as_schema" where
  "asSchema_of heap v =
     (case map_of heap v of
        None \<Rightarrow> Inl (Error ''not a schema'')
      | Some i \<Rightarrow> Inr (i, \<lparr>jsonSchema = Inr (Reflect_get v ''jsonSchema''), validate = None\<rparr>))"

definition greet_json :: jsval where
  "greet_json =
     JObject [(''type'', JString ''object''),
              (''properties'', JObject [(''name'', JObject [(''type'', JString ''string'')])]),
              (''required'', JArray [JString ''name'']),
              (''additionalProperties'', JBool False)]"

definition noop_json :: jsval where
  "noop_json =
     JObject [(''type'', JString ''object''),
              (''properties'', JObject []),
              (''additionalProperties'', JBool False)]"

definition calc_json :: jsval where
  "calc_json =
     JObject [(''type'', JString ''object''),
              (''properties'', JObject [(''value'', JObject [(''type'', JString ''number'')])]),
              (''required'', JArray [JString ''value'']),
              (''additionalProperties'', JBool False)]"

definition invalid_json :: jsval where
  "invalid_json = JObject [(''type'', JString ''strin'')]"

definition test_asSchema :: as_schema where
  "test_asSchema =
     asSchema_of [(jsonSchema_value greet_json, 1), (jsonSchema_value noop_json, 2),
                  (jsonSchema_value calc_json, 3), (jsonSchema_value invalid_json, 4)]"

text \<open>Stand-ins for the validators Ajv compiles from the two schemas the wrappers use.\<close>

definition greet_validator :: AjvValidator where
  "greet_validator val =
     (case Reflect_get val ''name'' of
        JString s \<Rightarrow> \<lparr>returned = JBool True, errors = JNull\<rparr>
      | _ \<Rightarrow>
          \<lparr>returned = JBool False,
           errors = JArray [JObject [(''instancePath'', JString ''/name''),
                                     (''schemaPath'', JString ''#/properties/name/type''),
                                     (''keyword'', JString ''type''),
                                     (''message'', JString ''must be string'')]]\<rparr>)"

definition noop_validator :: AjvValidator where
  "noop_validator val =
     (if val = JObject [] then \<lparr>returned = JBool True, errors = JNull\<rparr>
      else \<lparr>returned = JBool False,
            errors = JArray [JObject [(''instancePath'', JString []),
                                      (''schemaPath'', JString ''#/type''),
                                      (''keyword'', JString ''type''),
                                      (''message'', JString ''must be object'')]]\<rparr>)"

definition test_compile :: ajv_compile where
  "test_compile json =
     (if json = greet_json then Inr greet_validator
      else if json = noop_json then Inr noop_validator
      else Inl (Error ''schema is invalid''))"

definition greet_execute :: execute_fn where
  "greet_execute input options =
     (if length (toolCallId options) = 0 then Inl (Error ''Missing tool call id'')
      else case Reflect_get input ''name'' of
             JString s \<Rightarrow> Inr (JString (''hello '' @ s))
           | _ \<Rightarrow> Inr (JString ''hello undefined''))"

definition greet_tool :: McpToolDefinition where
  "greet_tool =
     \<lparr>McpToolDefinition.description = Some ''Greets a name'',
      McpToolDefinition.title = None,
      McpToolDefinition.inputSchema = jsonSchema_value greet_json,
      execute = Some greet_execute\<rparr>"

definition noop_tool :: McpToolDefinition where
  "noop_tool =
     \<lparr>McpToolDefinition.description = Some ''Noop'',
      McpToolDefinition.title = None,
      McpToolDefinition.inputSchema = jsonSchema_value noop_json,
      execute = None\<rparr>"

definition calc_tool :: McpToolDefinition where
  "calc_tool =
     \<lparr>McpToolDefinition.description = Some ''Adds values'',
      McpToolDefinition.title = Some ''Calculator'',
      McpToolDefinition.inputSchema = jsonSchema_value calc_json,
      execute = Some (\<lambda>input options. Inr (JObject [(''ok'', JBool True)]))\<rparr>"

text \<open>A tool whose input schema has none of the three shapes.\<close>

definition unsupported_tool :: McpToolDefinition where
  "unsupported_tool =
     \<lparr>McpToolDefinition.description = None,
      McpToolDefinition.title = None,
      McpToolDefinition.inputSchema = JNumber 42,
      execute = None\<rparr>"

definition bob :: jsval where
  "bob = JObject [(''name'', JString ''bob'')]"

definition not_a_name :: jsval where
  "not_a_name = JObject [(''name'', JNumber 123)]"

definition greet_schema :: Schema where
  "greet_schema = \<lparr>jsonSchema = Inr greet_json, validate = Some (compiled_validate greet_validator)\<rparr>"

definition noop_schema :: Schema where
  "noop_schema = \<lparr>jsonSchema = Inr noop_json, validate = Some (compiled_validate noop_validator)\<rparr>"

definition async_validator :: AjvValidator where
  "async_validator val = \<lparr>returned = JObject [(''then'', JFunction 0)], errors = JUndefined\<rparr>"

definition two_violations :: "jsval list" where
  "two_violations =
     [JObject [(''instancePath'', JString []),
               (''schemaPath'', JString ''#/additionalProperties''),
               (''keyword'', JString ''additionalProperties''),
               (''message'', JString ''must NOT have additional properties'')],
      JObject [(''instancePath'', JString ''/name''),
               (''schemaPath'', JString ''#/properties/name/type''),
               (''keyword'', JString ''type''),
               (''message'', JString ''must be string'')]]"

text \<open>A schema that brings its own validate operation, as a Zod schema does.\<close>

definition own_validate :: "jsval \<Rightarrow> error + ValidationResult" where
  "own_validate val =
     (case val of
        JString s \<Rightarrow> Inr (Success (JString s))
      | _ \<Rightarrow> Inr (Failure (Error ''Expected string'')))"

definition own_asSchema :: as_schema where
  "own_asSchema v =
     Inr (5, \<lparr>jsonSchema = Inr (JObject [(''type'', JString ''string'')]),
              validate = Some own_validate\<rparr>)"

section \<open>Helper lemmas\<close>

lemma typeof_function: "typeof v = ''function'' \<longleftrightarrow> callable_shape v"
  by (cases v) (simp_all add: callable_shape_def)

lemma typeof_object: "(typeof v = ''object'' \<and> v \<noteq> JNull) \<longleftrightarrow> non_null_object v"
  by (cases v) (simp_all add: non_null_object_def)

lemma ensureSyncValidation_async:
  "typeof (returned (validator val)) \<noteq> ''boolean'' \<Longrightarrow>
   ensureSyncValidation validator val =
     Inl (Error ''Async JSON schema validation is not supported.'')"
  by (simp add: ensureSyncValidation_def)

lemma ensureSyncValidation_bool:
  "returned (validator val) = JBool b \<Longrightarrow> ensureSyncValidation validator val = Inr b"
  by (simp add: ensureSyncValidation_def)

lemma compiled_validate_async:
  "typeof (returned (validator val)) \<noteq> ''boolean'' \<Longrightarrow>
   compiled_validate validator val =
     Inl (Error ''Async JSON schema validation is not supported.'')"
  by (simp add: compiled_validate_def ensureSyncValidation_async)

lemma compiled_validate_bool:
  "returned (validator val) = JBool b \<Longrightarrow>
   compiled_validate validator val =
     (if b then Inr (Success val)
      else Inr (Failure (Error (formatAjvErrors (errors (validator val))))))"
  by (simp add: compiled_validate_def ensureSyncValidation_bool)

lemma formatAjvError_violation:
  "is_violation err v \<Longrightarrow> formatAjvError err index = violation_text index v"
  using typeof_object [of err]
  by (auto simp: is_violation_def formatAjvError_def readOptionalString_def violation_text_def)

lemma map_enumerate_violations:
  "list_all2 is_violation es vs \<Longrightarrow>
   map (\<lambda>(index, err). formatAjvError err index) (enumerate n es)
     = map (\<lambda>(index, v). violation_text index v) (enumerate n vs)"
proof (induction es vs arbitrary: n rule: list_all2_induct)
  case Nil
  then show ?case by simp
next
  case (Cons e es v vs)
  then show ?case by (simp add: formatAjvError_violation)
qed

lemma formatAjvErrors_violations:
  assumes "vs \<noteq> []" and "list_all2 is_violation es vs"
  shows "formatAjvErrors (JArray es) = aggregated_message vs"
proof -
  from assms have "es \<noteq> []" by auto
  then show ?thesis
    using map_enumerate_violations [OF assms(2), of 0]
    by (simp add: formatAjvErrors_def aggregated_message_def)
qed

lemma validateInput_cases:
  "validate schema = Some check \<Longrightarrow>
   validateInput val schema =
     (case check val of
        Inl e \<Rightarrow> Inl e
      | Inr (Success validated) \<Rightarrow> Inr validated
      | Inr (Failure cause) \<Rightarrow> Inl (TypeValidationError val cause))"
  by (simp add: validateInput_def TypeValidationError_wrap_def
        split: sum.splits ValidationResult.splits)

lemma toolWrapper_cases:
  "validate schema = Some check \<Longrightarrow>
   toolWrapper toolName tool schema args u =
     (case check args of
        Inl e \<Rightarrow> (Inl e, u)
      | Inr (Failure cause) \<Rightarrow> (Inl (TypeValidationError args cause), u)
      | Inr (Success validated) \<Rightarrow>
          (case execute tool of
             None \<Rightarrow> (Inl (Error (missing_execute_message toolName)), u)
           | Some f \<Rightarrow>
               (f validated (createExecutionOptions toolName),
                u\<lparr>execute_log :=
                    execute_log u @ [(f, validated, createExecutionOptions toolName)]\<rparr>)))"
  by (simp add: toolWrapper_def validateInput_cases split: sum.splits ValidationResult.splits)

subsection \<open>The cache only grows while calls run one after another\<close>

lemma getAjvValidator_cache:
  assumes "getAjvValidator compile schema w = (Inr validator, w')"
  shows "schemaValidatorCache w' (fst schema) = Some validator
         \<and> schemaValidatorCache w \<subseteq>\<^sub>m schemaValidatorCache w'"
  using assms
  by (auto simp: getAjvValidator_def getAjvValidator_resume_def map_le_def Let_def
           split: option.splits sum.splits)

lemma buildValidatedSchema_ok:
  assumes "buildValidatedSchema asSchema compile flexible w = (Inr schema, w')"
  shows "\<exists>resolved. asSchema flexible = Inr resolved
           \<and> schemaValidatorCache w \<subseteq>\<^sub>m schemaValidatorCache w'
           \<and> (case validate (snd resolved) of
                 Some own \<Rightarrow> validate schema = Some own
               | None \<Rightarrow>
                   (\<exists>validator. schemaValidatorCache w' (fst resolved) = Some validator
                      \<and> validate schema = Some (compiled_validate validator)))"
proof (cases "asSchema flexible")
  case (Inl e)
  with assms show ?thesis by (simp add: buildValidatedSchema_def)
next
  case (Inr resolved)
  show ?thesis
  proof (cases "validate (snd resolved)")
    case (Some own)
    with Inr assms show ?thesis by (auto simp: buildValidatedSchema_def)
  next
    case None
    with Inr assms obtain validator where
      g: "getAjvValidator compile resolved w = (Inr validator, w')"
      and s: "schema = (snd resolved)\<lparr>validate := Some (compiled_validate validator)\<rparr>"
      by (auto simp: buildValidatedSchema_def split: prod.splits sum.splits)
    from getAjvValidator_cache [OF g] s None Inr show ?thesis by simp
  qed
qed

lemma tool_validation_mono:
  "schemaValidatorCache w \<subseteq>\<^sub>m schemaValidatorCache w' \<Longrightarrow>
   tool_validation asSchema w tool = Some check \<Longrightarrow>
   tool_validation asSchema w' tool = Some check"
  by (auto simp: tool_validation_def map_le_def dom_def split: sum.splits option.splits)

lemma createToolWrapper_ok:
  assumes "createToolWrapper asSchema compile toolName tool w = (Inr wrapper, w')"
  shows "\<exists>schema check. wrapper = toolWrapper toolName tool schema
           \<and> schemaValidatorCache w \<subseteq>\<^sub>m schemaValidatorCache w'
           \<and> validate schema = Some check
           \<and> tool_validation asSchema w' tool = Some check"
proof -
  from assms obtain schema where
    b: "buildValidatedSchema asSchema compile (McpToolDefinition.inputSchema tool) w
          = (Inr schema, w')"
    and wr: "wrapper = toolWrapper toolName tool schema"
    by (auto simp: createToolWrapper_def ensureFlexibleSchema_def
             split: if_splits prod.splits sum.splits)
  from buildValidatedSchema_ok [OF b] wr show ?thesis
    by (auto simp: tool_validation_def split: option.splits)
qed

lemma loop_step_Tool:
  assumes "createMcpToolFunctions_loop asSchema compile toolset (k # keys) acc w = (Inr fns, w')"
      and "toolset_get toolset k = Tool tool"
  obtains wrapper w1 where
    "createToolWrapper asSchema compile k tool w = (Inr wrapper, w1)"
    "createMcpToolFunctions_loop asSchema compile toolset keys (AList.update k wrapper acc) w1
       = (Inr fns, w')"
  using assms by (auto split: prod.splits sum.splits)

lemma loop_cache_le:
  "createMcpToolFunctions_loop asSchema compile toolset keys acc w = (Inr fns, w') \<Longrightarrow>
   schemaValidatorCache w \<subseteq>\<^sub>m schemaValidatorCache w'"
proof (induction keys arbitrary: acc w)
  case Nil
  then show ?case by simp
next
  case (Cons k keys)
  show ?case
  proof (cases "toolset_get toolset k")
    case Falsy
    with Cons show ?thesis by simp
  next
    case (Tool tool)
    from loop_step_Tool [OF Cons.prems Tool] obtain wrapper w1 where
      c: "createToolWrapper asSchema compile k tool w = (Inr wrapper, w1)"
      and r: "createMcpToolFunctions_loop asSchema compile toolset keys
                (AList.update k wrapper acc) w1 = (Inr fns, w')"
      by blast
    from createToolWrapper_ok [OF c] Cons.IH [OF r] show ?thesis
      by (auto intro: map_le_trans)
  qed
qed

lemma loop_untouched:
  "createMcpToolFunctions_loop asSchema compile toolset keys acc w = (Inr fns, w') \<Longrightarrow>
   k \<notin> set keys \<Longrightarrow> map_of fns k = map_of acc k"
proof (induction keys arbitrary: acc w)
  case Nil
  then show ?case by simp
next
  case (Cons k' keys)
  show ?case
  proof (cases "toolset_get toolset k'")
    case Falsy
    with Cons show ?thesis by simp
  next
    case (Tool tool)
    from loop_step_Tool [OF Cons.prems(1) Tool] obtain wrapper w1 where
      r: "createMcpToolFunctions_loop asSchema compile toolset keys
            (AList.update k' wrapper acc) w1 = (Inr fns, w')"
      by blast
    from Cons.IH [OF r] Cons.prems(2) show ?thesis
      by (simp add: update_conv')
  qed
qed

lemma loop_wrapper:
  "createMcpToolFunctions_loop asSchema compile toolset keys acc w = (Inr fns, w') \<Longrightarrow>
   k \<in> set keys \<Longrightarrow> toolset_get toolset k = Tool tool \<Longrightarrow>
   \<exists>schema check. map_of fns k = Some (toolWrapper k tool schema)
      \<and> validate schema = Some check \<and> tool_validation asSchema w' tool = Some check"
proof (induction keys arbitrary: acc w)
  case Nil
  then show ?case by simp
next
  case (Cons k' keys)
  show ?case
  proof (cases "toolset_get toolset k'")
    case Falsy
    with Cons.prems have "k \<in> set keys" by auto
    with Cons Falsy show ?thesis by simp
  next
    case (Tool tool')
    from loop_step_Tool [OF Cons.prems(1) Tool] obtain wrapper w1 where
      c: "createToolWrapper asSchema compile k' tool' w = (Inr wrapper, w1)"
      and r: "createMcpToolFunctions_loop asSchema compile toolset keys
                (AList.update k' wrapper acc) w1 = (Inr fns, w')"
      by blast
    show ?thesis
    proof (cases "k \<in> set keys")
      case True
      from Cons.IH [OF r True Cons.prems(3)] show ?thesis .
    next
      case False
      with Cons.prems have kk: "k' = k" by simp
      with Tool Cons.prems have tt: "tool' = tool" by simp
      from createToolWrapper_ok [OF c] kk tt obtain schema check where
        w: "wrapper = toolWrapper k tool schema" and v: "validate schema = Some check"
        and tv: "tool_validation asSchema w1 tool = Some check"
        by auto
      from loop_untouched [OF r False] kk w
      have "map_of fns k = Some (toolWrapper k tool schema)"
        by (simp add: update_conv')
      moreover from tool_validation_mono [OF loop_cache_le [OF r] tv]
      have "tool_validation asSchema w' tool = Some check" .
      ultimately show ?thesis using v by blast
    qed
  qed
qed

lemma built_wrapper:
  assumes "createMcpToolFunctions asSchema compile toolset w = (Inr toolFunctions, w')"
      and "toolName \<in> set (Object_keys toolset)"
      and "toolset_get toolset toolName = Tool tool"
  shows "\<exists>schema check. map_of toolFunctions toolName = Some (toolWrapper toolName tool schema)
           \<and> validate schema = Some check \<and> tool_validation asSchema w' tool = Some check"
  using assms loop_wrapper unfolding createMcpToolFunctions_def by blast

subsection \<open>The tools of the test suite, evaluated\<close>

lemma jsonSchema_value_flexible:
  "ensureFlexibleSchema (jsonSchema_value json) = Inr (jsonSchema_value json)"
  by (simp add: ensureFlexibleSchema_def isFlexibleSchema_def jsonSchema_value_def js_in_def)

lemma test_asSchema_greet:
  "test_asSchema (jsonSchema_value greet_json)
     = Inr (1, \<lparr>jsonSchema = Inr greet_json, validate = None\<rparr>)"
  by (simp add: test_asSchema_def asSchema_of_def jsonSchema_value_def)

lemma test_asSchema_noop:
  "test_asSchema (jsonSchema_value noop_json)
     = Inr (2, \<lparr>jsonSchema = Inr noop_json, validate = None\<rparr>)"
  by (simp add: test_asSchema_def asSchema_of_def jsonSchema_value_def greet_json_def
        noop_json_def)

lemma test_asSchema_calc:
  "test_asSchema (jsonSchema_value calc_json)
     = Inr (3, \<lparr>jsonSchema = Inr calc_json, validate = None\<rparr>)"
  by (simp add: test_asSchema_def asSchema_of_def jsonSchema_value_def greet_json_def
        noop_json_def calc_json_def)

lemma test_asSchema_invalid:
  "test_asSchema (jsonSchema_value invalid_json)
     = Inr (4, \<lparr>jsonSchema = Inr invalid_json, validate = None\<rparr>)"
  by (simp add: test_asSchema_def asSchema_of_def jsonSchema_value_def greet_json_def
        noop_json_def calc_json_def invalid_json_def)

lemma test_compile_greet: "test_compile greet_json = Inr greet_validator"
  by (simp add: test_compile_def)

lemma test_compile_noop: "test_compile noop_json = Inr noop_validator"
  by (simp add: test_compile_def greet_json_def noop_json_def)

lemma test_compile_invalid: "test_compile invalid_json = Inl (Error ''schema is invalid'')"
  by (simp add: test_compile_def greet_json_def noop_json_def invalid_json_def)

lemma createToolWrapper_greet:
  "createToolWrapper test_asSchema test_compile ''greet'' greet_tool initial_world =
     (Inr (toolWrapper ''greet'' greet_tool greet_schema),
      initial_world\<lparr>schemaValidatorCache := [1 \<mapsto> greet_validator], compile_log := [1]\<rparr>)"
  by (simp add: createToolWrapper_def greet_tool_def jsonSchema_value_flexible
        buildValidatedSchema_def test_asSchema_greet getAjvValidator_def
        getAjvValidator_resume_def initial_world_def test_compile_greet greet_schema_def)

lemma createToolWrapper_noop:
  "createToolWrapper test_asSchema test_compile ''noop'' noop_tool initial_world =
     (Inr (toolWrapper ''noop'' noop_tool noop_schema),
      initial_world\<lparr>schemaValidatorCache := [2 \<mapsto> noop_validator], compile_log := [2]\<rparr>)"
  by (simp add: createToolWrapper_def noop_tool_def jsonSchema_value_flexible
        buildValidatedSchema_def test_asSchema_noop getAjvValidator_def
        getAjvValidator_resume_def initial_world_def test_compile_noop noop_schema_def)

lemma greet_toolset_built:
  "createMcpToolFunctions test_asSchema test_compile [(''greet'', Tool greet_tool)] initial_world =
     (Inr [(''greet'', toolWrapper ''greet'' greet_tool greet_schema)],
      initial_world\<lparr>schemaValidatorCache := [1 \<mapsto> greet_validator], compile_log := [1]\<rparr>)"
  by (simp add: createMcpToolFunctions_def Object_keys_def toolset_get_def
        createToolWrapper_greet)

lemma noop_toolset_built:
  "createMcpToolFunctions test_asSchema test_compile [(''noop'', Tool noop_tool)] initial_world =
     (Inr [(''noop'', toolWrapper ''noop'' noop_tool noop_schema)],
      initial_world\<lparr>schemaValidatorCache := [2 \<mapsto> noop_validator], compile_log := [2]\<rparr>)"
  by (simp add: createMcpToolFunctions_def Object_keys_def toolset_get_def
        createToolWrapper_noop)

lemma greet_accepts_bob: "compiled_validate greet_validator bob = Inr (Success bob)"
  by (simp add: compiled_validate_def ensureSyncValidation_def greet_validator_def bob_def)

lemma greet_rejects_not_a_name:
  "compiled_validate greet_validator not_a_name
     = Inr (Failure (Error ''/name: must be string''))"
  by (simp add: compiled_validate_def ensureSyncValidation_def greet_validator_def
        not_a_name_def formatAjvErrors_def formatAjvError_def readOptionalString_def
        enumerate_eq_zip)

lemma noop_accepts_empty: "compiled_validate noop_validator (JObject []) = Inr (Success (JObject []))"
  by (simp add: compiled_validate_def ensureSyncValidation_def noop_validator_def)

lemma noop_rejects_number:
  "compiled_validate noop_validator (JNumber 123)
     = Inr (Failure (Error ''error 1: must be object''))"
  by (simp add: compiled_validate_def ensureSyncValidation_def noop_validator_def
        formatAjvErrors_def formatAjvError_def readOptionalString_def enumerate_eq_zip
        show_nat.simps digit_char_def)

section \<open>Schema resolution (C6)\<close>

text \<open>
  C6. Schema resolution accepts exactly three shapes of input-schema value: a callable
  value, a non-null object with the property \<^verbatim>\<open>~standard\<close>, and a non-null object with
  both the properties \<^verbatim>\<open>jsonSchema\<close> and \<^verbatim>\<open>validate\<close>. On these it returns the value it
  was given, unchanged; on every other value it raises the unsupported-schema error.
\<close>

theorem ensureFlexibleSchema_three_shapes:
  "ensureFlexibleSchema v =
     (if callable_shape v
         \<or> (non_null_object v \<and> js_in ''~standard'' v)
         \<or> (non_null_object v \<and> js_in ''jsonSchema'' v \<and> js_in ''validate'' v)
      then Inr v
      else Inl (Error ''Tool input schema is not a supported schema.''))"
  using typeof_function [of v] typeof_object [of v]
  by (auto simp: ensureFlexibleSchema_def isFlexibleSchema_def)

theorem ensureFlexibleSchema_three_shapes_witness:
  "ensureFlexibleSchema (JFunction 0) = Inr (JFunction 0)
   \<and> ensureFlexibleSchema (JObject [(''~standard'', JObject [])])
       = Inr (JObject [(''~standard'', JObject [])])
   \<and> ensureFlexibleSchema (jsonSchema_value greet_json) = Inr (jsonSchema_value greet_json)
   \<and> ensureFlexibleSchema (JObject [(''jsonSchema'', greet_json)])
       = Inl (Error ''Tool input schema is not a supported schema.'')
   \<and> ensureFlexibleSchema JNull = Inl (Error ''Tool input schema is not a supported schema.'')
   \<and> ensureFlexibleSchema (JNumber 42)
       = Inl (Error ''Tool input schema is not a supported schema.'')"
  using ensureFlexibleSchema_three_shapes [of "JFunction 0"]
    ensureFlexibleSchema_three_shapes [of "JObject [(''~standard'', JObject [])]"]
    ensureFlexibleSchema_three_shapes [of "jsonSchema_value greet_json"]
    ensureFlexibleSchema_three_shapes [of "JObject [(''jsonSchema'', greet_json)]"]
    ensureFlexibleSchema_three_shapes [of JNull]
    ensureFlexibleSchema_three_shapes [of "JNumber 42"]
  by (simp add: callable_shape_def non_null_object_def js_in_def jsonSchema_value_def)

section \<open>The compiled validator's outcome (C8, C9)\<close>

text \<open>
  C8. For every compiled validator and every input value: when the call of the validator
  returns something that is not a boolean, \<^verbatim>\<open>ensureSyncValidation\<close>, and with it the
  validation closure built around the validator, raises the error
  \<^verbatim>\<open>Async JSON schema validation is not supported.\<close>; when it returns a boolean, no error
  is raised and the boolean decides: \<^verbatim>\<open>true\<close> is success with the value, \<^verbatim>\<open>false\<close> is
  a failure result.
\<close>

theorem non_boolean_outcome_is_rejected:
  "(typeof (returned (validator val)) \<noteq> ''boolean'' \<longrightarrow>
      ensureSyncValidation validator val
        = Inl (Error ''Async JSON schema validation is not supported.'')
      \<and> compiled_validate validator val
        = Inl (Error ''Async JSON schema validation is not supported.''))
   \<and> (\<forall>b. returned (validator val) = JBool b \<longrightarrow>
         ensureSyncValidation validator val = Inr b
         \<and> compiled_validate validator val =
             (if b then Inr (Success val)
              else Inr (Failure (Error (formatAjvErrors (errors (validator val)))))))"
  by (simp add: ensureSyncValidation_async compiled_validate_async
        ensureSyncValidation_bool compiled_validate_bool)

theorem non_boolean_outcome_is_rejected_witness:
  "typeof (returned (async_validator bob)) \<noteq> ''boolean''
   \<and> compiled_validate async_validator bob
       = Inl (Error ''Async JSON schema validation is not supported.'')
   \<and> returned (greet_validator bob) = JBool True
   \<and> compiled_validate greet_validator bob = Inr (Success bob)
   \<and> returned (greet_validator not_a_name) = JBool False
   \<and> compiled_validate greet_validator not_a_name
       = Inr (Failure (Error (formatAjvErrors (errors (greet_validator not_a_name)))))"
proof -
  have a: "typeof (returned (async_validator bob)) \<noteq> ''boolean''"
    by (simp add: async_validator_def)
  have t: "returned (greet_validator bob) = JBool True"
    by (simp add: greet_validator_def bob_def)
  have f: "returned (greet_validator not_a_name) = JBool False"
    by (simp add: greet_validator_def not_a_name_def)
  from a t f
    non_boolean_outcome_is_rejected [of async_validator bob]
    non_boolean_outcome_is_rejected [of greet_validator bob]
    non_boolean_outcome_is_rejected [of greet_validator not_a_name]
  show ?thesis by auto
qed

text \<open>
  C9. When the compiled validator rejects a value and reports a non-empty list of
  structural violations, the failure result's error message is, over the violations in
  order, each violation's location (its instance path, or the positional label
  \<^verbatim>\<open>error n\<close> when the path is empty), a colon and its message, the per-violation
  strings joined by \<^verbatim>\<open>"; "\<close>.
\<close>

theorem failure_message_aggregates_violations:
  assumes "vs \<noteq> []"
      and "list_all2 is_violation es vs"
      and "returned (validator val) = JBool False"
      and "errors (validator val) = JArray es"
  shows "compiled_validate validator val = Inr (Failure (Error (aggregated_message vs)))
         \<and> aggregated_message vs =
             join ''; '' (map (\<lambda>(index, v).
                                 (if fst v = [] then ''error '' @ show_nat (index + 1) else fst v)
                                   @ '': '' @ snd v)
                              (enumerate 0 vs))"
proof -
  have "compiled_validate validator val = Inr (Failure (Error (formatAjvErrors (JArray es))))"
    using compiled_validate_bool [of validator val False] assms(3,4) by simp
  moreover have "formatAjvErrors (JArray es) = aggregated_message vs"
    using assms(1,2) by (rule formatAjvErrors_violations)
  ultimately show ?thesis
    by (simp add: aggregated_message_def violation_text_def)
qed

theorem failure_message_aggregates_violations_witness:
  "list_all2 is_violation two_violations
     [([], ''must NOT have additional properties''), (''/name'', ''must be string'')]
   \<and> compiled_validate (\<lambda>val. \<lparr>returned = JBool False, errors = JArray two_violations\<rparr>)
         not_a_name
       = Inr (Failure (Error
           ''error 1: must NOT have additional properties; /name: must be string''))"
proof -
  have v: "list_all2 is_violation two_violations
             [([], ''must NOT have additional properties''), (''/name'', ''must be string'')]"
    by (simp add: two_violations_def is_violation_def non_null_object_def)
  have m: "aggregated_message
             [([], ''must NOT have additional properties''), (''/name'', ''must be string'')]
           = ''error 1: must NOT have additional properties; /name: must be string''"
    by (simp add: aggregated_message_def violation_text_def enumerate_eq_zip
          show_nat.simps digit_char_def)
  from failure_message_aggregates_violations
         [OF _ v, of "\<lambda>val. \<lparr>returned = JBool False, errors = JArray two_violations\<rparr>"
            not_a_name]
  show ?thesis using v m by simp
qed

section \<open>Input validation (C5)\<close>

text \<open>
  C5. For every input value and every schema with a validate operation: when the
  operation reports failure, \<^verbatim>\<open>validateInput\<close> raises the typed validation error (never a
  generic \<^verbatim>\<open>Error\<close>) that carries the rejected input value and the failure's cause; when
  it reports success, \<^verbatim>\<open>validateInput\<close> returns the validated value without raising.
\<close>

theorem validateInput_typed_error:
  assumes "validate schema = Some check"
  shows "(\<forall>cause. check val = Inr (Failure cause) \<longrightarrow>
            validateInput val schema = Inl (TypeValidationError val cause)
            \<and> (\<forall>msg. validateInput val schema \<noteq> Inl (Error msg)))
         \<and> (\<forall>validated. check val = Inr (Success validated) \<longrightarrow>
               validateInput val schema = Inr validated)"
  by (simp add: validateInput_cases [OF assms])

theorem validateInput_typed_error_witness:
  "validate greet_schema = Some (compiled_validate greet_validator)
   \<and> compiled_validate greet_validator not_a_name
       = Inr (Failure (Error ''/name: must be string''))
   \<and> validateInput not_a_name greet_schema
       = Inl (TypeValidationError not_a_name (Error ''/name: must be string''))
   \<and> compiled_validate greet_validator bob = Inr (Success bob)
   \<and> validateInput bob greet_schema = Inr bob"
proof -
  have s: "validate greet_schema = Some (compiled_validate greet_validator)"
    by (simp add: greet_schema_def)
  from validateInput_typed_error [OF s, of not_a_name] validateInput_typed_error [OF s, of bob]
  show ?thesis using s greet_accepts_bob greet_rejects_not_a_name by simp
qed

section \<open>Tool wrappers (C1, C2, C10)\<close>

text \<open>
  C1. For every tool of a toolset that provides an execute function, the wrapper that
  \<^verbatim>\<open>createMcpToolFunctions\<close> builds for it behaves as follows. Called with a value the
  tool's schema validation accepts, it invokes the tool's execute function exactly once
  (the log of execute calls grows by one entry), passing the validated value and the
  execution options whose call identifier is \<^verbatim>\<open>mcp:\<close> followed by the tool name and whose
  message history is empty, and it returns what execute returns. Called with a value
  the validation rejects, it raises the typed validation error for that value and does
  not invoke execute (the log is unchanged).
\<close>

theorem wrapper_validates_then_executes:
  assumes "createMcpToolFunctions asSchema compile toolset w = (Inr toolFunctions, w')"
      and "toolName \<in> set (Object_keys toolset)"
      and "toolset_get toolset toolName = Tool tool"
      and "execute tool = Some f"
  shows "\<exists>wrapper check.
           map_of toolFunctions toolName = Some wrapper
         \<and> tool_validation asSchema w' tool = Some check
         \<and> (\<forall>args validated u. check args = Inr (Success validated) \<longrightarrow>
               wrapper args u =
                 (f validated \<lparr>toolCallId = ''mcp:'' @ toolName, messages = []\<rparr>,
                  u\<lparr>execute_log := execute_log u @
                      [(f, validated, \<lparr>toolCallId = ''mcp:'' @ toolName, messages = []\<rparr>)]\<rparr>))
         \<and> (\<forall>args cause u. check args = Inr (Failure cause) \<longrightarrow>
               wrapper args u = (Inl (TypeValidationError args cause), u))"
proof -
  from built_wrapper [OF assms(1,2,3)] obtain schema check where
    m: "map_of toolFunctions toolName = Some (toolWrapper toolName tool schema)"
    and v: "validate schema = Some check"
    and t: "tool_validation asSchema w' tool = Some check"
    by blast
  have "\<forall>args validated u. check args = Inr (Success validated) \<longrightarrow>
          toolWrapper toolName tool schema args u =
            (f validated \<lparr>toolCallId = ''mcp:'' @ toolName, messages = []\<rparr>,
             u\<lparr>execute_log := execute_log u @
                 [(f, validated, \<lparr>toolCallId = ''mcp:'' @ toolName, messages = []\<rparr>)]\<rparr>)"
    by (simp add: toolWrapper_cases [OF v] assms(4) createExecutionOptions_def)
  moreover have "\<forall>args cause u. check args = Inr (Failure cause) \<longrightarrow>
          toolWrapper toolName tool schema args u = (Inl (TypeValidationError args cause), u)"
    by (simp add: toolWrapper_cases [OF v])
  ultimately show ?thesis using m t by blast
qed

theorem wrapper_validates_then_executes_witness:
  "fst (createMcpToolFunctions test_asSchema test_compile [(''greet'', Tool greet_tool)]
          initial_world)
     = Inr [(''greet'', toolWrapper ''greet'' greet_tool greet_schema)]
   \<and> execute greet_tool = Some greet_execute
   \<and> toolWrapper ''greet'' greet_tool greet_schema bob initial_world
       = (Inr (JString ''hello bob''),
          initial_world\<lparr>execute_log :=
            [(greet_execute, bob, \<lparr>toolCallId = ''mcp:greet'', messages = []\<rparr>)]\<rparr>)
   \<and> toolWrapper ''greet'' greet_tool greet_schema not_a_name initial_world
       = (Inl (TypeValidationError not_a_name (Error ''/name: must be string'')),
          initial_world)"
proof -
  let ?w = "initial_world\<lparr>schemaValidatorCache := [1 \<mapsto> greet_validator], compile_log := [1]\<rparr>"
  have k: "''greet'' \<in> set (Object_keys [(''greet'', Tool greet_tool)])"
    by (simp add: Object_keys_def)
  have g: "toolset_get [(''greet'', Tool greet_tool)] ''greet'' = Tool greet_tool"
    by (simp add: toolset_get_def)
  have e: "execute greet_tool = Some greet_execute"
    by (simp add: greet_tool_def)
  have tv: "tool_validation test_asSchema ?w greet_tool = Some (compiled_validate greet_validator)"
    by (simp add: tool_validation_def greet_tool_def test_asSchema_greet)
  from wrapper_validates_then_executes [OF greet_toolset_built k g e] tv
  have ok: "\<And>args validated u.
              compiled_validate greet_validator args = Inr (Success validated) \<Longrightarrow>
              toolWrapper ''greet'' greet_tool greet_schema args u =
                (greet_execute validated \<lparr>toolCallId = ''mcp:greet'', messages = []\<rparr>,
                 u\<lparr>execute_log := execute_log u @
                     [(greet_execute, validated, \<lparr>toolCallId = ''mcp:greet'', messages = []\<rparr>)]\<rparr>)"
    and bad: "\<And>args cause u.
              compiled_validate greet_validator args = Inr (Failure cause) \<Longrightarrow>
              toolWrapper ''greet'' greet_tool greet_schema args u =
                (Inl (TypeValidationError args cause), u)"
    by auto
  have h: "greet_execute bob \<lparr>toolCallId = ''mcp:greet'', messages = []\<rparr>
             = Inr (JString ''hello bob'')"
    by (simp add: greet_execute_def bob_def)
  from ok [OF greet_accepts_bob, of initial_world] bad [OF greet_rejects_not_a_name, of initial_world]
  show ?thesis
    using h e greet_toolset_built by (simp add: initial_world_def)
qed

text \<open>
  C2, as the claim states it, fails: the wrapper of the test suite's tool without an
  execute function, called with the number 123, which its schema rejects, raises the
  typed validation error whose cause reads \<^verbatim>\<open>error 1: must be object\<close>, not the error
  about the missing execute function.
\<close>

theorem missing_execute_regardless_of_input_counterexample:
  "fst (createMcpToolFunctions test_asSchema test_compile [(''noop'', Tool noop_tool)]
          initial_world)
     = Inr [(''noop'', toolWrapper ''noop'' noop_tool noop_schema)]
   \<and> execute noop_tool = None
   \<and> fst (toolWrapper ''noop'' noop_tool noop_schema (JNumber 123) initial_world)
       = Inl (TypeValidationError (JNumber 123) (Error ''error 1: must be object''))
   \<and> fst (toolWrapper ''noop'' noop_tool noop_schema (JNumber 123) initial_world)
       \<noteq> Inl (Error (missing_execute_message ''noop''))
   \<and> \<not> sublist ''execute function'' ''error 1: must be object''"
proof -
  have v: "validate noop_schema = Some (compiled_validate noop_validator)"
    by (simp add: noop_schema_def)
  have "toolWrapper ''noop'' noop_tool noop_schema (JNumber 123) initial_world
          = (Inl (TypeValidationError (JNumber 123) (Error ''error 1: must be object'')),
             initial_world)"
    by (simp add: toolWrapper_cases [OF v] noop_rejects_number)
  moreover have "execute noop_tool = None"
    by (simp add: noop_tool_def)
  moreover have "\<not> sublist ''execute function'' ''error 1: must be object''"
    by code_simp
  ultimately show ?thesis
    using noop_toolset_built by simp
qed

text \<open>
  C2, amended. For every tool whose definition has no execute function, every
  invocation of the wrapper built for it with an argument that passes the tool's schema
  validation rejects with the error \<^verbatim>\<open>MCP tool "name" does not have an execute function.\<close>,
  whose message mentions \<^verbatim>\<open>execute function\<close>.
\<close>

theorem missing_execute_after_validation:
  assumes "createMcpToolFunctions asSchema compile toolset w = (Inr toolFunctions, w')"
      and "toolName \<in> set (Object_keys toolset)"
      and "toolset_get toolset toolName = Tool tool"
      and "execute tool = None"
  shows "\<exists>wrapper check.
           map_of toolFunctions toolName = Some wrapper
         \<and> tool_validation asSchema w' tool = Some check
         \<and> (\<forall>args validated u. check args = Inr (Success validated) \<longrightarrow>
               wrapper args u = (Inl (Error (missing_execute_message toolName)), u))
         \<and> sublist ''execute function'' (missing_execute_message toolName)"
proof -
  from built_wrapper [OF assms(1,2,3)] obtain schema check where
    m: "map_of toolFunctions toolName = Some (toolWrapper toolName tool schema)"
    and v: "validate schema = Some check"
    and t: "tool_validation asSchema w' tool = Some check"
    by blast
  have "\<forall>args validated u. check args = Inr (Success validated) \<longrightarrow>
          toolWrapper toolName tool schema args u
            = (Inl (Error (missing_execute_message toolName)), u)"
    by (simp add: toolWrapper_cases [OF v] assms(4))
  moreover have "sublist ''execute function'' (missing_execute_message toolName)"
    unfolding sublist_def missing_execute_message_def
    by (rule exI [of _ "''MCP tool '' @ [CHR 0x22] @ toolName @ [CHR 0x22] @ '' does not have an ''"],
        rule exI [of _ "''.''"]) simp
  ultimately show ?thesis using m t by blast
qed

theorem missing_execute_after_validation_witness:
  "fst (createMcpToolFunctions test_asSchema test_compile [(''noop'', Tool noop_tool)]
          initial_world)
     = Inr [(''noop'', toolWrapper ''noop'' noop_tool noop_schema)]
   \<and> execute noop_tool = None
   \<and> compiled_validate noop_validator (JObject []) = Inr (Success (JObject []))
   \<and> toolWrapper ''noop'' noop_tool noop_schema (JObject []) initial_world
       = (Inl (Error (missing_execute_message ''noop'')), initial_world)
   \<and> sublist ''execute function'' (missing_execute_message ''noop'')"
proof -
  let ?w = "initial_world\<lparr>schemaValidatorCache := [2 \<mapsto> noop_validator], compile_log := [2]\<rparr>"
  have k: "''noop'' \<in> set (Object_keys [(''noop'', Tool noop_tool)])"
    by (simp add: Object_keys_def)
  have g: "toolset_get [(''noop'', Tool noop_tool)] ''noop'' = Tool noop_tool"
    by (simp add: toolset_get_def)
  have e: "execute noop_tool = None"
    by (simp add: noop_tool_def)
  have tv: "tool_validation test_asSchema ?w noop_tool = Some (compiled_validate noop_validator)"
    by (simp add: tool_validation_def noop_tool_def test_asSchema_noop)
  from missing_execute_after_validation [OF noop_toolset_built k g e] tv
  have ok: "\<And>args validated u.
              compiled_validate noop_validator args = Inr (Success validated) \<Longrightarrow>
              toolWrapper ''noop'' noop_tool noop_schema args u
                = (Inl (Error (missing_execute_message ''noop'')), u)"
    and s: "sublist ''execute function'' (missing_execute_message ''noop'')"
    by auto
  from ok [OF noop_accepts_empty, of initial_world] s e noop_accepts_empty noop_toolset_built
  show ?thesis by simp
qed

text \<open>
  C10. In every wrapper that \<^verbatim>\<open>createMcpToolFunctions\<close> builds, input validation runs
  before the check for an execute function. For a tool without an execute function the
  outcome of a call is decided by the validation of the argument alone: an error the
  validation throws is passed on, an argument that fails validation rejects with the
  typed validation error, and only an argument that passes validation reaches the error
  about the missing execute function.
\<close>

theorem validation_precedes_execute_check:
  assumes "createMcpToolFunctions asSchema compile toolset w = (Inr toolFunctions, w')"
      and "toolName \<in> set (Object_keys toolset)"
      and "toolset_get toolset toolName = Tool tool"
      and "execute tool = None"
  shows "\<exists>wrapper check.
           map_of toolFunctions toolName = Some wrapper
         \<and> tool_validation asSchema w' tool = Some check
         \<and> (\<forall>args u. wrapper args u =
               (case check args of
                  Inl e \<Rightarrow> (Inl e, u)
                | Inr (Failure cause) \<Rightarrow> (Inl (TypeValidationError args cause), u)
                | Inr (Success validated) \<Rightarrow>
                    (Inl (Error (missing_execute_message toolName)), u)))"
proof -
  from built_wrapper [OF assms(1,2,3)] obtain schema check where
    m: "map_of toolFunctions toolName = Some (toolWrapper toolName tool schema)"
    and v: "validate schema = Some check"
    and t: "tool_validation asSchema w' tool = Some check"
    by blast
  have "\<forall>args u. toolWrapper toolName tool schema args u =
          (case check args of
             Inl e \<Rightarrow> (Inl e, u)
           | Inr (Failure cause) \<Rightarrow> (Inl (TypeValidationError args cause), u)
           | Inr (Success validated) \<Rightarrow>
               (Inl (Error (missing_execute_message toolName)), u))"
    by (simp add: toolWrapper_cases [OF v] assms(4) split: sum.splits ValidationResult.splits)
  then show ?thesis using m t by blast
qed

theorem validation_precedes_execute_check_witness:
  "fst (createMcpToolFunctions test_asSchema test_compile [(''noop'', Tool noop_tool)]
          initial_world)
     = Inr [(''noop'', toolWrapper ''noop'' noop_tool noop_schema)]
   \<and> execute noop_tool = None
   \<and> toolWrapper ''noop'' noop_tool noop_schema (JNumber 123) initial_world
       = (Inl (TypeValidationError (JNumber 123) (Error ''error 1: must be object'')),
          initial_world)
   \<and> toolWrapper ''noop'' noop_tool noop_schema (JObject []) initial_world
       = (Inl (Error (missing_execute_message ''noop'')), initial_world)"
proof -
  let ?w = "initial_world\<lparr>schemaValidatorCache := [2 \<mapsto> noop_validator], compile_log := [2]\<rparr>"
  have k: "''noop'' \<in> set (Object_keys [(''noop'', Tool noop_tool)])"
    by (simp add: Object_keys_def)
  have g: "toolset_get [(''noop'', Tool noop_tool)] ''noop'' = Tool noop_tool"
    by (simp add: toolset_get_def)
  have e: "execute noop_tool = None"
    by (simp add: noop_tool_def)
  have tv: "tool_validation test_asSchema ?w noop_tool = Some (compiled_validate noop_validator)"
    by (simp add: tool_validation_def noop_tool_def test_asSchema_noop)
  from validation_precedes_execute_check [OF noop_toolset_built k g e] tv
  have c: "\<And>args u. toolWrapper ''noop'' noop_tool noop_schema args u =
             (case compiled_validate noop_validator args of
                Inl e \<Rightarrow> (Inl e, u)
              | Inr (Failure cause) \<Rightarrow> (Inl (TypeValidationError args cause), u)
              | Inr (Success validated) \<Rightarrow>
                  (Inl (Error (missing_execute_message ''noop'')), u))"
    by auto
  show ?thesis
    using c [of "JNumber 123" initial_world] c [of "JObject []" initial_world]
      e noop_toolset_built noop_accepts_empty noop_rejects_number
    by simp
qed

section \<open>Toolset enumeration (C3, C7)\<close>

lemma list_loop_step:
  "toolset_get toolset k = Tool tool \<Longrightarrow>
   listMcpToolsFromToolSet_loop asSchema toolset (k # keys) tools =
     (case resolved_json asSchema tool of
        Inl e \<Rightarrow> Inl e
      | Inr json \<Rightarrow>
          listMcpToolsFromToolSet_loop asSchema toolset keys (tools @ [tool_info asSchema (k, tool)]))"
  by (simp add: resolved_json_def tool_info_def split: sum.splits)

lemma list_loop_all_resolve:
  "(\<forall>entry \<in> set (concat (map (\<lambda>k. case toolset_get toolset k of
                                         Falsy \<Rightarrow> [] | Tool tool \<Rightarrow> [(k, tool)]) keys)).
      \<exists>json. resolved_json asSchema (snd entry) = Inr json) \<Longrightarrow>
   listMcpToolsFromToolSet_loop asSchema toolset keys tools =
     Inr (tools @ map (tool_info asSchema)
            (concat (map (\<lambda>k. case toolset_get toolset k of
                                 Falsy \<Rightarrow> [] | Tool tool \<Rightarrow> [(k, tool)]) keys)))"
proof (induction keys arbitrary: tools)
  case Nil
  then show ?case by simp
next
  case (Cons k keys)
  show ?case
  proof (cases "toolset_get toolset k")
    case Falsy
    with Cons show ?thesis by simp
  next
    case (Tool tool)
    with Cons.prems obtain json where j: "resolved_json asSchema tool = Inr json"
      by auto
    from Cons.prems Tool
    have "listMcpToolsFromToolSet_loop asSchema toolset keys (tools @ [tool_info asSchema (k, tool)])
            = Inr ((tools @ [tool_info asSchema (k, tool)]) @ map (tool_info asSchema)
                (concat (map (\<lambda>k. case toolset_get toolset k of
                                     Falsy \<Rightarrow> [] | Tool tool \<Rightarrow> [(k, tool)]) keys)))"
      by (intro Cons.IH) auto
    with Tool j show ?thesis
      by (simp add: list_loop_step [OF Tool] del: listMcpToolsFromToolSet_loop.simps)
  qed
qed

lemma list_loop_some_fails:
  "(\<exists>entry \<in> set (concat (map (\<lambda>k. case toolset_get toolset k of
                                         Falsy \<Rightarrow> [] | Tool tool \<Rightarrow> [(k, tool)]) keys)).
      \<exists>e. resolved_json asSchema (snd entry) = Inl e) \<Longrightarrow>
   \<exists>e. listMcpToolsFromToolSet_loop asSchema toolset keys tools = Inl e"
proof (induction keys arbitrary: tools)
  case Nil
  then show ?case by simp
next
  case (Cons k keys)
  show ?case
  proof (cases "toolset_get toolset k")
    case Falsy
    with Cons show ?thesis by simp
  next
    case (Tool tool)
    show ?thesis
    proof (cases "resolved_json asSchema tool")
      case (Inl e)
      then show ?thesis
        by (simp add: list_loop_step [OF Tool] del: listMcpToolsFromToolSet_loop.simps)
    next
      case (Inr json)
      with Cons.prems Tool
      have "\<exists>entry \<in> set (concat (map (\<lambda>k. case toolset_get toolset k of
                                         Falsy \<Rightarrow> [] | Tool tool \<Rightarrow> [(k, tool)]) keys)).
              \<exists>e. resolved_json asSchema (snd entry) = Inl e"
        by auto
      from Cons.IH [OF this] Inr show ?thesis
        by (simp add: list_loop_step [OF Tool] del: listMcpToolsFromToolSet_loop.simps)
    qed
  qed
qed

lemma list_loop_toolset_cong:
  "(\<forall>k \<in> set keys. toolset_get ts' k = toolset_get ts k) \<Longrightarrow>
   listMcpToolsFromToolSet_loop asSchema ts' keys tools
     = listMcpToolsFromToolSet_loop asSchema ts keys tools"
  by (induction keys arbitrary: tools) (auto split: toolset_entry.splits sum.splits)

lemma list_loop_skips_falsy:
  "listMcpToolsFromToolSet_loop asSchema ts (filter (\<lambda>k. toolset_get ts k \<noteq> Falsy) keys) tools
     = listMcpToolsFromToolSet_loop asSchema ts keys tools"
  by (induction keys arbitrary: tools) (auto split: toolset_entry.splits sum.splits)

lemma create_loop_toolset_cong:
  "(\<forall>k \<in> set keys. toolset_get ts' k = toolset_get ts k) \<Longrightarrow>
   createMcpToolFunctions_loop asSchema compile ts' keys acc w
     = createMcpToolFunctions_loop asSchema compile ts keys acc w"
  by (induction keys arbitrary: acc w) (auto split: toolset_entry.splits sum.splits prod.splits)

lemma create_loop_skips_falsy:
  "createMcpToolFunctions_loop asSchema compile ts
       (filter (\<lambda>k. toolset_get ts k \<noteq> Falsy) keys) acc w
     = createMcpToolFunctions_loop asSchema compile ts keys acc w"
  by (induction keys arbitrary: acc w) (auto split: toolset_entry.splits sum.splits prod.splits)

lemma toolset_get_distinct:
  "distinct (map fst ts) \<Longrightarrow> p \<in> set ts \<Longrightarrow> toolset_get ts (fst p) = snd p"
  by (cases p) (simp add: toolset_get_def)

lemma toolset_get_without_falsy:
  "distinct (map fst ts) \<Longrightarrow> toolset_get (without_falsy ts) k = toolset_get ts k"
proof (induction ts)
  case Nil
  then show ?case by (simp add: without_falsy_def)
next
  case (Cons p ts)
  then have ih: "toolset_get (without_falsy ts) k = toolset_get ts k" by simp
  show ?case
  proof (cases "fst p = k")
    case False
    with ih show ?thesis
      by (cases p) (auto simp: without_falsy_def toolset_get_def)
  next
    case True
    from Cons.prems True have "k \<notin> fst ` set ts" by auto
    then have "map_of (filter (\<lambda>p. snd p \<noteq> Falsy) ts) k = None"
      by (auto simp: map_of_eq_None_iff)
    with True show ?thesis
      by (cases p) (auto simp: without_falsy_def toolset_get_def)
  qed
qed

lemma keys_without_falsy:
  assumes "distinct (map fst ts)"
  shows "Object_keys (without_falsy ts) = filter (\<lambda>k. toolset_get ts k \<noteq> Falsy) (Object_keys ts)"
proof -
  have "filter (\<lambda>p. snd p \<noteq> Falsy) ts = filter (\<lambda>p. toolset_get ts (fst p) \<noteq> Falsy) ts"
    using toolset_get_distinct [OF assms] by (intro filter_cong) auto
  then show ?thesis
    by (simp add: Object_keys_def without_falsy_def filter_map comp_def)
qed

lemma list_without_falsy:
  assumes "distinct (Object_keys ts)"
  shows "listMcpToolsFromToolSet asSchema (without_falsy ts) = listMcpToolsFromToolSet asSchema ts"
proof -
  from assms have d: "distinct (map fst ts)" by (simp add: Object_keys_def)
  show ?thesis
    unfolding listMcpToolsFromToolSet_def keys_without_falsy [OF d]
    using list_loop_toolset_cong [of _ "without_falsy ts" ts] toolset_get_without_falsy [OF d]
    by (simp add: list_loop_skips_falsy)
qed

lemma create_without_falsy:
  assumes "distinct (Object_keys ts)"
  shows "createMcpToolFunctions asSchema compile (without_falsy ts) w
           = createMcpToolFunctions asSchema compile ts w"
proof -
  from assms have d: "distinct (map fst ts)" by (simp add: Object_keys_def)
  show ?thesis
    unfolding createMcpToolFunctions_def keys_without_falsy [OF d]
    using create_loop_toolset_cong [of _ "without_falsy ts" ts] toolset_get_without_falsy [OF d]
    by (simp add: create_loop_skips_falsy)
qed

lemma create_loop_append:
  "createMcpToolFunctions_loop asSchema compile ts (pre @ post) acc w =
     (case createMcpToolFunctions_loop asSchema compile ts pre acc w of
        (Inl e, w') \<Rightarrow> (Inl e, w')
      | (Inr acc', w') \<Rightarrow> createMcpToolFunctions_loop asSchema compile ts post acc' w')"
  by (induction pre arbitrary: acc w) (auto split: toolset_entry.splits sum.splits prod.splits)

lemma resolved_json_jsonSchema_value:
  "test_asSchema (jsonSchema_value json) = Inr (i, \<lparr>jsonSchema = Inr json, validate = None\<rparr>) \<Longrightarrow>
   resolved_json test_asSchema
     \<lparr>McpToolDefinition.description = d, McpToolDefinition.title = t,
      McpToolDefinition.inputSchema = jsonSchema_value json, execute = x\<rparr> = Inr json"
  by (simp add: resolved_json_def jsonSchema_value_flexible)

lemma resolved_json_calc: "resolved_json test_asSchema calc_tool = Inr calc_json"
  unfolding calc_tool_def by (rule resolved_json_jsonSchema_value [OF test_asSchema_calc])

lemma resolved_json_greet: "resolved_json test_asSchema greet_tool = Inr greet_json"
  unfolding greet_tool_def by (rule resolved_json_jsonSchema_value [OF test_asSchema_greet])

lemma resolved_json_unsupported:
  "resolved_json asSchema unsupported_tool
     = Inl (Error ''Tool input schema is not a supported schema.'')"
  by (simp add: resolved_json_def unsupported_tool_def ensureFlexibleSchema_def
        isFlexibleSchema_def)

text \<open>
  C3, as the claim states it, fails: a toolset whose only entry is non-falsy and has the
  number 42 as input schema has one defined entry, and \<^verbatim>\<open>listMcpToolsFromToolSet\<close>
  raises the unsupported-schema error on it instead of returning a record for the entry.
\<close>

theorem listing_every_toolset_counterexample:
  "defined_entries [(''bad'', Tool unsupported_tool)] = [(''bad'', unsupported_tool)]
   \<and> listMcpToolsFromToolSet test_asSchema [(''bad'', Tool unsupported_tool)]
       = Inl (Error ''Tool input schema is not a supported schema.'')"
  by (simp add: defined_entries_def Object_keys_def toolset_get_def
        listMcpToolsFromToolSet_def unsupported_tool_def ensureFlexibleSchema_def
        isFlexibleSchema_def)

text \<open>
  C3, amended. For every toolset whose non-falsy entries all have an input schema that
  resolves (a supported shape on which \<^verbatim>\<open>asSchema\<close> and the JSON representation succeed),
  \<^verbatim>\<open>listMcpToolsFromToolSet\<close> returns exactly one metadata record per non-falsy entry, in
  the toolset's key enumeration order, with the record's name, description and title
  equal to the entry's key, description and title and its input schema the resolved
  JSON representation; when some non-falsy entry does not resolve it raises an error and
  returns no list. In both \<^verbatim>\<open>listMcpToolsFromToolSet\<close> and \<^verbatim>\<open>createMcpToolFunctions\<close> a
  falsy entry is skipped without output or error: removing the falsy entries from a
  toolset (an object, so its keys are distinct) changes neither result.
\<close>

theorem listing_one_record_per_defined_entry:
  "((\<forall>entry \<in> set (defined_entries toolset).
        \<exists>json. resolved_json asSchema (snd entry) = Inr json) \<longrightarrow>
      listMcpToolsFromToolSet asSchema toolset
        = Inr (map (tool_info asSchema) (defined_entries toolset))
      \<and> (\<forall>entry \<in> set (defined_entries toolset).
            McpToolInfo.name (tool_info asSchema entry) = fst entry
          \<and> McpToolInfo.description (tool_info asSchema entry)
              = McpToolDefinition.description (snd entry)
          \<and> McpToolInfo.title (tool_info asSchema entry) = McpToolDefinition.title (snd entry)
          \<and> Inr (McpToolInfo.inputSchema (tool_info asSchema entry))
              = resolved_json asSchema (snd entry)))
   \<and> ((\<exists>entry \<in> set (defined_entries toolset).
          \<exists>e. resolved_json asSchema (snd entry) = Inl e) \<longrightarrow>
        (\<exists>e. listMcpToolsFromToolSet asSchema toolset = Inl e))
   \<and> (distinct (Object_keys toolset) \<longrightarrow>
        listMcpToolsFromToolSet asSchema (without_falsy toolset)
          = listMcpToolsFromToolSet asSchema toolset
        \<and> createMcpToolFunctions asSchema compile (without_falsy toolset) w
          = createMcpToolFunctions asSchema compile toolset w)"
proof (intro conjI impI)
  assume a: "\<forall>entry \<in> set (defined_entries toolset).
               \<exists>json. resolved_json asSchema (snd entry) = Inr json"
  then show "listMcpToolsFromToolSet asSchema toolset
               = Inr (map (tool_info asSchema) (defined_entries toolset))"
    unfolding listMcpToolsFromToolSet_def defined_entries_def
    using list_loop_all_resolve [of toolset "Object_keys toolset" asSchema "[]"] by simp
  from a show "\<forall>entry \<in> set (defined_entries toolset).
            McpToolInfo.name (tool_info asSchema entry) = fst entry
          \<and> McpToolInfo.description (tool_info asSchema entry)
              = McpToolDefinition.description (snd entry)
          \<and> McpToolInfo.title (tool_info asSchema entry) = McpToolDefinition.title (snd entry)
          \<and> Inr (McpToolInfo.inputSchema (tool_info asSchema entry))
              = resolved_json asSchema (snd entry)"
    by (auto simp: tool_info_def)
next
  assume "\<exists>entry \<in> set (defined_entries toolset). \<exists>e. resolved_json asSchema (snd entry) = Inl e"
  then show "\<exists>e. listMcpToolsFromToolSet asSchema toolset = Inl e"
    unfolding listMcpToolsFromToolSet_def defined_entries_def
    by (rule list_loop_some_fails)
next
  assume "distinct (Object_keys toolset)"
  then show "listMcpToolsFromToolSet asSchema (without_falsy toolset)
               = listMcpToolsFromToolSet asSchema toolset"
    by (rule list_without_falsy)
next
  assume "distinct (Object_keys toolset)"
  then show "createMcpToolFunctions asSchema compile (without_falsy toolset) w
               = createMcpToolFunctions asSchema compile toolset w"
    by (rule create_without_falsy)
qed

theorem listing_one_record_per_defined_entry_witness:
  "defined_entries [(''gone'', Falsy), (''calc'', Tool calc_tool), (''greet'', Tool greet_tool)]
     = [(''calc'', calc_tool), (''greet'', greet_tool)]
   \<and> resolved_json test_asSchema calc_tool = Inr calc_json
   \<and> resolved_json test_asSchema greet_tool = Inr greet_json
   \<and> listMcpToolsFromToolSet test_asSchema
         [(''gone'', Falsy), (''calc'', Tool calc_tool), (''greet'', Tool greet_tool)]
       = Inr [\<lparr>McpToolInfo.name = ''calc'', McpToolInfo.description = Some ''Adds values'',
               McpToolInfo.title = Some ''Calculator'', McpToolInfo.inputSchema = calc_json\<rparr>,
              \<lparr>McpToolInfo.name = ''greet'', McpToolInfo.description = Some ''Greets a name'',
               McpToolInfo.title = None, McpToolInfo.inputSchema = greet_json\<rparr>]
   \<and> (\<exists>e. listMcpToolsFromToolSet test_asSchema
              [(''calc'', Tool calc_tool), (''bad'', Tool unsupported_tool)] = Inl e)
   \<and> distinct (Object_keys [(''gone'', Falsy), (''calc'', Tool calc_tool), (''greet'', Tool greet_tool)])
   \<and> without_falsy [(''gone'', Falsy), (''calc'', Tool calc_tool), (''greet'', Tool greet_tool)]
       = [(''calc'', Tool calc_tool), (''greet'', Tool greet_tool)]
   \<and> listMcpToolsFromToolSet test_asSchema [(''calc'', Tool calc_tool), (''greet'', Tool greet_tool)]
       = listMcpToolsFromToolSet test_asSchema
           [(''gone'', Falsy), (''calc'', Tool calc_tool), (''greet'', Tool greet_tool)]
   \<and> createMcpToolFunctions test_asSchema test_compile
         [(''calc'', Tool calc_tool), (''greet'', Tool greet_tool)] initial_world
       = createMcpToolFunctions test_asSchema test_compile
           [(''gone'', Falsy), (''calc'', Tool calc_tool), (''greet'', Tool greet_tool)]
           initial_world"
proof -
  let ?ts = "[(''gone'', Falsy), (''calc'', Tool calc_tool), (''greet'', Tool greet_tool)]"
  let ?bad = "[(''calc'', Tool calc_tool), (''bad'', Tool unsupported_tool)]"
  have d: "defined_entries ?ts = [(''calc'', calc_tool), (''greet'', greet_tool)]"
    by (simp add: defined_entries_def Object_keys_def toolset_get_def)
  have b: "defined_entries ?bad = [(''calc'', calc_tool), (''bad'', unsupported_tool)]"
    by (simp add: defined_entries_def Object_keys_def toolset_get_def)
  have k: "distinct (Object_keys ?ts)"
    by (simp add: Object_keys_def)
  have f: "without_falsy ?ts = [(''calc'', Tool calc_tool), (''greet'', Tool greet_tool)]"
    by (simp add: without_falsy_def)
  have i: "map (tool_info test_asSchema) [(''calc'', calc_tool), (''greet'', greet_tool)]
             = [\<lparr>McpToolInfo.name = ''calc'', McpToolInfo.description = Some ''Adds values'',
                 McpToolInfo.title = Some ''Calculator'', McpToolInfo.inputSchema = calc_json\<rparr>,
                \<lparr>McpToolInfo.name = ''greet'', McpToolInfo.description = Some ''Greets a name'',
                 McpToolInfo.title = None, McpToolInfo.inputSchema = greet_json\<rparr>]"
    by (simp add: tool_info_def resolved_json_calc resolved_json_greet)
       (simp add: calc_tool_def greet_tool_def)
  from listing_one_record_per_defined_entry [of ?ts test_asSchema test_compile initial_world]
    listing_one_record_per_defined_entry [of ?bad test_asSchema test_compile initial_world]
  show ?thesis
    using d b k f i resolved_json_calc resolved_json_greet resolved_json_unsupported
    by simp
qed

text \<open>
  C7. When the construction pass of \<^verbatim>\<open>createMcpToolFunctions\<close> reaches an entry whose
  wrapper construction raises an error (the entries before it were processed
  successfully), \<^verbatim>\<open>createMcpToolFunctions\<close> raises that very error and returns no mapping:
  the wrappers built for the earlier entries are not returned, and the entries after it
  are not processed.
\<close>

theorem construction_error_aborts_pass:
  assumes "Object_keys toolset = earlier @ toolName # later"
      and "createMcpToolFunctions_loop asSchema compile toolset earlier [] w = (Inr built, w1)"
      and "toolset_get toolset toolName = Tool tool"
      and "createToolWrapper asSchema compile toolName tool w1 = (Inl e, w2)"
  shows "createMcpToolFunctions asSchema compile toolset w = (Inl e, w2)
         \<and> (\<forall>toolFunctions. fst (createMcpToolFunctions asSchema compile toolset w)
               \<noteq> Inr toolFunctions)"
  using assms by (simp add: createMcpToolFunctions_def create_loop_append)

theorem construction_error_aborts_pass_witness:
  "Object_keys [(''greet'', Tool greet_tool), (''bad'', Tool unsupported_tool),
                (''noop'', Tool noop_tool)] = [''greet''] @ ''bad'' # [''noop'']
   \<and> fst (createMcpToolFunctions_loop test_asSchema test_compile
            [(''greet'', Tool greet_tool), (''bad'', Tool unsupported_tool),
             (''noop'', Tool noop_tool)] [''greet''] [] initial_world)
       = Inr [(''greet'', toolWrapper ''greet'' greet_tool greet_schema)]
   \<and> fst (createMcpToolFunctions test_asSchema test_compile
            [(''greet'', Tool greet_tool), (''bad'', Tool unsupported_tool),
             (''noop'', Tool noop_tool)] initial_world)
       = Inl (Error ''Tool input schema is not a supported schema.'')"
proof -
  let ?ts = "[(''greet'', Tool greet_tool), (''bad'', Tool unsupported_tool),
              (''noop'', Tool noop_tool)]"
  let ?w = "initial_world\<lparr>schemaValidatorCache := [1 \<mapsto> greet_validator], compile_log := [1]\<rparr>"
  have k: "Object_keys ?ts = [''greet''] @ ''bad'' # [''noop'']"
    by (simp add: Object_keys_def)
  have p: "createMcpToolFunctions_loop test_asSchema test_compile ?ts [''greet''] [] initial_world
             = (Inr [(''greet'', toolWrapper ''greet'' greet_tool greet_schema)], ?w)"
    by (simp add: toolset_get_def createToolWrapper_greet)
  have g: "toolset_get ?ts ''bad'' = Tool unsupported_tool"
    by (simp add: toolset_get_def)
  have c: "createToolWrapper test_asSchema test_compile ''bad'' unsupported_tool ?w
             = (Inl (Error ''Tool input schema is not a supported schema.''), ?w)"
    by (simp add: createToolWrapper_def unsupported_tool_def ensureFlexibleSchema_def
          isFlexibleSchema_def)
  from construction_error_aborts_pass [OF k p g c] k p show ?thesis by simp
qed

section \<open>Validator materialization (C4)\<close>

lemma buildValidatedSchema_first:
  assumes "asSchema schema = Inr (i, resolved)" and "validate resolved = None"
      and "schemaValidatorCache w i = None"
      and "jsonSchema resolved = Inr json" and "compile json = Inr validator"
  shows "buildValidatedSchema asSchema compile schema w =
           (Inr (resolved\<lparr>validate := Some (compiled_validate validator)\<rparr>),
            w\<lparr>compile_log := compile_log w @ [i],
              schemaValidatorCache := (schemaValidatorCache w)(i \<mapsto> validator)\<rparr>)"
  using assms
  by (simp add: buildValidatedSchema_def getAjvValidator_def getAjvValidator_resume_def)

lemma buildValidatedSchema_cached:
  assumes "asSchema schema = Inr (i, resolved)" and "validate resolved = None"
      and "schemaValidatorCache w i = Some validator"
  shows "buildValidatedSchema asSchema compile schema w =
           (Inr (resolved\<lparr>validate := Some (compiled_validate validator)\<rparr>), w)"
  using assms by (simp add: buildValidatedSchema_def getAjvValidator_def)

lemma buildValidatedSchema_own:
  assumes "asSchema schema = Inr (i, resolved)" and "validate resolved = Some own"
  shows "buildValidatedSchema asSchema compile schema w = (Inr resolved, w)"
  using assms by (simp add: buildValidatedSchema_def)

lemma getAjvValidator_compiled_once:
  assumes "compiled_once i w"
      and "fst schema = i \<longrightarrow>
             (case jsonSchema (snd schema) of
                Inl e \<Rightarrow> True
              | Inr json \<Rightarrow> (case compile json of Inl e \<Rightarrow> False | Inr validator \<Rightarrow> True))"
  shows "compiled_once i (snd (getAjvValidator compile schema w))"
proof (cases "schemaValidatorCache w (fst schema)")
  case (Some cached)
  with assms(1) show ?thesis by (simp add: getAjvValidator_def)
next
  case None
  show ?thesis
  proof (cases "fst schema = i")
    case True
    with None assms(1) have "i \<notin> set (compile_log w)"
      by (auto simp: compiled_once_def)
    then have "count_list (compile_log w) i = 0"
      by (simp add: count_list_0_iff)
    with True None assms show ?thesis
      by (auto simp: getAjvValidator_def getAjvValidator_resume_def compiled_once_def Let_def
               split: sum.splits)
  next
    case False
    with None assms(1) show ?thesis
      by (auto simp: getAjvValidator_def getAjvValidator_resume_def compiled_once_def Let_def
               split: sum.splits)
  qed
qed

lemma buildValidatedSchema_compiled_once:
  assumes "compiled_once i w" and "compiles_for asSchema compile i schema"
  shows "compiled_once i (snd (buildValidatedSchema asSchema compile schema w))"
proof (cases "asSchema schema")
  case (Inl e)
  with assms(1) show ?thesis by (simp add: buildValidatedSchema_def)
next
  case (Inr resolved)
  show ?thesis
  proof (cases "validate (snd resolved)")
    case (Some own)
    with Inr assms(1) show ?thesis by (simp add: buildValidatedSchema_def)
  next
    case None
    from assms(2) Inr
    have "fst resolved = i \<longrightarrow>
            (case jsonSchema (snd resolved) of
               Inl e \<Rightarrow> True
             | Inr json \<Rightarrow> (case compile json of Inl e \<Rightarrow> False | Inr validator \<Rightarrow> True))"
      by (simp add: compiles_for_def)
    from getAjvValidator_compiled_once [OF assms(1) this]
    have "compiled_once i (snd (getAjvValidator compile resolved w))" .
    with Inr None show ?thesis
      by (cases "getAjvValidator compile resolved w")
         (auto simp: buildValidatedSchema_def split: sum.splits)
  qed
qed

lemma materialize_all_compiled_once:
  "compiled_once i w \<Longrightarrow> \<forall>s \<in> set schemas. compiles_for asSchema compile i s \<Longrightarrow>
   compiled_once i (materialize_all asSchema compile schemas w)"
proof (induction schemas arbitrary: w)
  case Nil
  then show ?case by simp
next
  case (Cons s schemas)
  from Cons.prems have "compiled_once i (snd (buildValidatedSchema asSchema compile s w))"
    by (intro buildValidatedSchema_compiled_once) auto
  with Cons show ?case by simp
qed

lemma buildValidatedSchema_invalid:
  "buildValidatedSchema test_asSchema test_compile (jsonSchema_value invalid_json) w =
     (if schemaValidatorCache w 4 = None
      then (Inl (Error ''schema is invalid''), w\<lparr>compile_log := compile_log w @ [4]\<rparr>)
      else (Inr (\<lparr>jsonSchema = Inr invalid_json,
                   validate = Some (compiled_validate (the (schemaValidatorCache w 4)))\<rparr>), w))"
  by (auto simp: buildValidatedSchema_def test_asSchema_invalid getAjvValidator_def
        getAjvValidator_resume_def test_compile_invalid)

text \<open>
  Two calls of \<^verbatim>\<open>getAjvValidator\<close> for one schema that overlap: both look the cache up
  before either has passed its \<^verbatim>\<open>await\<close>, both miss, and each compiles when it resumes.
\<close>

lemma overlapping_materializations_compile_twice:
  "schemaValidatorCache initial_world 1 = None
   \<and> compile_log (snd (getAjvValidator_resume test_compile
                         (1, \<lparr>jsonSchema = Inr greet_json, validate = None\<rparr>)
                         (snd (getAjvValidator_resume test_compile
                                 (1, \<lparr>jsonSchema = Inr greet_json, validate = None\<rparr>)
                                 initial_world)))) = [1, 1]"
  by (simp add: getAjvValidator_resume_def initial_world_def test_compile_greet)

text \<open>
  C4, as the claim states it, fails: a schema identity whose JSON representation Ajv
  refuses is never cached, so two materializations of the same schema object, one after
  the other, invoke the compiler twice.
\<close>

theorem compiler_invoked_at_most_once_counterexample:
  "test_asSchema (jsonSchema_value invalid_json)
     = Inr (4, \<lparr>jsonSchema = Inr invalid_json, validate = None\<rparr>)
   \<and> test_compile invalid_json = Inl (Error ''schema is invalid'')
   \<and> compile_log (materialize_all test_asSchema test_compile
                    [jsonSchema_value invalid_json, jsonSchema_value invalid_json]
                    initial_world) = [4, 4]
   \<and> count_list (compile_log (materialize_all test_asSchema test_compile
                    [jsonSchema_value invalid_json, jsonSchema_value invalid_json]
                    initial_world)) 4 = 2"
  by (simp add: test_asSchema_invalid test_compile_invalid buildValidatedSchema_invalid
        initial_world_def)

text \<open>
  C4, amended. While materializations run one after another, for every schema identity
  whose JSON representation the compiler accepts, the fallback compiler is invoked at
  most once: the first materialization compiles and stores the compiled validator in
  the identity-keyed cache, and every later materialization for the same schema object
  returns the cached validator without compiling. A resolved schema that exposes its own
  validate function is used directly, without compilation and without a cache entry.
\<close>

theorem compiled_at_most_once_when_sequential:
  "(asSchema schema = Inr (i, resolved) \<and> validate resolved = None
      \<and> schemaValidatorCache w i = None
      \<and> jsonSchema resolved = Inr json \<and> compile json = Inr validator \<longrightarrow>
      buildValidatedSchema asSchema compile schema w =
        (Inr (resolved\<lparr>validate := Some (compiled_validate validator)\<rparr>),
         w\<lparr>compile_log := compile_log w @ [i],
           schemaValidatorCache := (schemaValidatorCache w)(i \<mapsto> validator)\<rparr>))
   \<and> (asSchema schema = Inr (i, resolved) \<and> validate resolved = None
      \<and> schemaValidatorCache w i = Some validator \<longrightarrow>
      buildValidatedSchema asSchema compile schema w =
        (Inr (resolved\<lparr>validate := Some (compiled_validate validator)\<rparr>), w))
   \<and> (asSchema schema = Inr (i, resolved) \<and> validate resolved = Some own \<longrightarrow>
      buildValidatedSchema asSchema compile schema w = (Inr resolved, w))
   \<and> (i \<notin> set (compile_log w) \<and> (\<forall>s \<in> set schemas. compiles_for asSchema compile i s) \<longrightarrow>
      count_list (compile_log (materialize_all asSchema compile schemas w)) i \<le> 1)"
proof (intro conjI impI)
  assume "asSchema schema = Inr (i, resolved) \<and> validate resolved = None
      \<and> schemaValidatorCache w i = None
      \<and> jsonSchema resolved = Inr json \<and> compile json = Inr validator"
  then show "buildValidatedSchema asSchema compile schema w =
        (Inr (resolved\<lparr>validate := Some (compiled_validate validator)\<rparr>),
         w\<lparr>compile_log := compile_log w @ [i],
           schemaValidatorCache := (schemaValidatorCache w)(i \<mapsto> validator)\<rparr>)"
    using buildValidatedSchema_first [of asSchema schema i resolved w json compile validator]
    by simp
next
  assume "asSchema schema = Inr (i, resolved) \<and> validate resolved = None
      \<and> schemaValidatorCache w i = Some validator"
  then show "buildValidatedSchema asSchema compile schema w =
        (Inr (resolved\<lparr>validate := Some (compiled_validate validator)\<rparr>), w)"
    using buildValidatedSchema_cached [of asSchema schema i resolved w validator compile]
    by simp
next
  assume "asSchema schema = Inr (i, resolved) \<and> validate resolved = Some own"
  then show "buildValidatedSchema asSchema compile schema w = (Inr resolved, w)"
    using buildValidatedSchema_own [of asSchema schema i resolved own compile w]
    by simp
next
  assume a: "i \<notin> set (compile_log w) \<and> (\<forall>s \<in> set schemas. compiles_for asSchema compile i s)"
  then have "compiled_once i w"
    by (simp add: compiled_once_def count_list_0_iff)
  with a have "compiled_once i (materialize_all asSchema compile schemas w)"
    by (intro materialize_all_compiled_once) simp_all
  then show "count_list (compile_log (materialize_all asSchema compile schemas w)) i \<le> 1"
    by (simp add: compiled_once_def)
qed

theorem compiled_at_most_once_when_sequential_witness:
  "buildValidatedSchema test_asSchema test_compile (jsonSchema_value greet_json) initial_world =
     (Inr greet_schema,
      initial_world\<lparr>schemaValidatorCache := [1 \<mapsto> greet_validator], compile_log := [1]\<rparr>)
   \<and> buildValidatedSchema test_asSchema test_compile (jsonSchema_value greet_json)
       (initial_world\<lparr>schemaValidatorCache := [1 \<mapsto> greet_validator], compile_log := [1]\<rparr>) =
     (Inr greet_schema,
      initial_world\<lparr>schemaValidatorCache := [1 \<mapsto> greet_validator], compile_log := [1]\<rparr>)
   \<and> buildValidatedSchema own_asSchema test_compile (JFunction 0) initial_world =
     (Inr \<lparr>jsonSchema = Inr (JObject [(''type'', JString ''string'')]),
           validate = Some own_validate\<rparr>, initial_world)
   \<and> compiles_for test_asSchema test_compile 1 (jsonSchema_value greet_json)
   \<and> compiles_for test_asSchema test_compile 1 (jsonSchema_value noop_json)
   \<and> 1 \<notin> set (compile_log initial_world)
   \<and> count_list (compile_log (materialize_all test_asSchema test_compile
        [jsonSchema_value greet_json, jsonSchema_value noop_json, jsonSchema_value greet_json]
        initial_world)) 1 \<le> 1"
proof -
  let ?w1 = "initial_world\<lparr>schemaValidatorCache := [1 \<mapsto> greet_validator], compile_log := [1]\<rparr>"
  let ?ss = "[jsonSchema_value greet_json, jsonSchema_value noop_json, jsonSchema_value greet_json]"
  let ?own = "\<lparr>jsonSchema = Inr (JObject [(''type'', JString ''string'')]),
               validate = Some own_validate\<rparr>"
  have c: "\<forall>s \<in> set ?ss. compiles_for test_asSchema test_compile 1 s"
    by (simp add: compiles_for_def test_asSchema_greet test_asSchema_noop test_compile_greet)
  have e: "schemaValidatorCache initial_world 1 = None" "1 \<notin> set (compile_log initial_world)"
    by (simp_all add: initial_world_def)
  have u: "?w1 = initial_world\<lparr>compile_log := compile_log initial_world @ [1],
             schemaValidatorCache := (schemaValidatorCache initial_world)(1 \<mapsto> greet_validator)\<rparr>"
    by (simp add: initial_world_def)
  have h: "schemaValidatorCache ?w1 1 = Some greet_validator"
    by simp
  have o: "own_asSchema (JFunction 0) = Inr (5, ?own)"
    by (simp add: own_asSchema_def)
  have s: "greet_schema = \<lparr>jsonSchema = Inr greet_json, validate = None\<rparr>
             \<lparr>validate := Some (compiled_validate greet_validator)\<rparr>"
    by (simp add: greet_schema_def)
  from compiled_at_most_once_when_sequential
         [of test_asSchema "jsonSchema_value greet_json" 1
             "\<lparr>jsonSchema = Inr greet_json, validate = None\<rparr>" initial_world greet_json
             test_compile greet_validator own_validate ?ss]
  have first: "buildValidatedSchema test_asSchema test_compile (jsonSchema_value greet_json)
                 initial_world = (Inr greet_schema, ?w1)"
    and count: "count_list (compile_log (materialize_all test_asSchema test_compile ?ss
                  initial_world)) 1 \<le> 1"
    using test_asSchema_greet test_compile_greet e c u s
    by (simp_all del: materialize_all.simps)
  from compiled_at_most_once_when_sequential
         [of test_asSchema "jsonSchema_value greet_json" 1
             "\<lparr>jsonSchema = Inr greet_json, validate = None\<rparr>" ?w1 greet_json
             test_compile greet_validator own_validate "[]"]
  have again: "buildValidatedSchema test_asSchema test_compile (jsonSchema_value greet_json) ?w1
                 = (Inr greet_schema, ?w1)"
    using test_asSchema_greet h s by simp
  from compiled_at_most_once_when_sequential
         [of own_asSchema "JFunction 0" 5 ?own initial_world greet_json
             test_compile greet_validator own_validate "[]"]
  have own: "buildValidatedSchema own_asSchema test_compile (JFunction 0) initial_world
               = (Inr ?own, initial_world)"
    using o by simp
  from first again own c count e(2) show ?thesis
    by (simp del: materialize_all.simps)
qed

end
